theory Spec2Isabelle
  imports Complex_Main
begin

section \<open>Values shared by both modules\<close>

text \<open>
  The repository computes with Python, NumPy and TensorFlow floats. A float is embedded
  as a \<^typ>\<open>real\<close>: rounding and overflow are left out. Where NumPy answers with
  not-a-number instead of raising (\<open>np.mean\<close> of an empty list), the statistics
  below have a value for it. Every exception that the embedded code itself can raise is
  a value of \<open>py_error\<close>, and a function that can raise returns a sum.
\<close>

datatype py_error = IndexError | ValueError | ZeroDivisionError

type_synonym obs = "real list"
type_synonym act = "real list"

section \<open>hbaselines/trpo/algorithm.py\<close>

subsection \<open>NumPy clipping with broadcasting\<close>

text \<open>
  \<open>np.clip(a, a_min, a_max)\<close> is \<open>np.minimum(a_max, np.maximum(a, a_min))\<close> after
  broadcasting. A batch of actions is a list of rows of one common length; the bounds of a
  \<open>Box\<close> are one-dimensional. Two lengths broadcast when they are equal or one of
  them is 1; anything else is NumPy's \<open>ValueError\<close>.
\<close>

definition broadcast_len :: "nat \<Rightarrow> nat \<Rightarrow> nat option" where
  "broadcast_len a b =
     (if a = b then Some a else if a = 1 then Some b else if b = 1 then Some a else None)"

definition broadcast_to :: "nat \<Rightarrow> real list \<Rightarrow> real list" where
  "broadcast_to d xs = (case xs of [x] \<Rightarrow> replicate d x | _ \<Rightarrow> xs)"

definition np_clip_row :: "real list \<Rightarrow> real list \<Rightarrow> real list \<Rightarrow> py_error + real list" where
  "np_clip_row row a_min a_max =
     (case broadcast_len (length row) (length a_min) of
        None \<Rightarrow> Inl ValueError
      | Some d1 \<Rightarrow>
          (case broadcast_len d1 (length a_max) of
             None \<Rightarrow> Inl ValueError
           | Some d \<Rightarrow>
               Inr (map (\<lambda>(x, lo, hi). min hi (max x lo))
                      (zip (broadcast_to d row)
                         (zip (broadcast_to d a_min) (broadcast_to d a_max))))))"

fun np_clip :: "real list list \<Rightarrow> real list \<Rightarrow> real list \<Rightarrow> py_error + real list list" where
  "np_clip [] a_min a_max = Inr []"
| "np_clip (row # rows) a_min a_max =
     (case np_clip_row row a_min a_max of
        Inl e \<Rightarrow> Inl e
      | Inr c \<Rightarrow>
          (case np_clip rows a_min a_max of
             Inl e \<Rightarrow> Inl e
           | Inr cs \<Rightarrow> Inr (c # cs)))"

subsection \<open>The collaborators of the sampler\<close>

text \<open>
  \<open>gym.spaces\<close>: the sampler only asks whether the action space is a \<open>Box\<close>, and
  reads its \<open>low\<close> and \<open>high\<close>.
\<close>

datatype space = Box (low: "real list") (high: "real list") | Discrete nat

text \<open>
  The environment and the policy are collaborators of the sampler. Both may keep state
  and draw random numbers, so they are functions on a world state \<open>'w\<close> that is
  threaded through every call: \<open>env.reset()\<close>, \<open>env.step(a)\<close> (the \<open>info\<close>
  it returns is never read) and \<open>policy_pi.compute_action(batch)\<close>. The sampler
  catches no exception of theirs, and the model has none: every call returns.
\<close>

record 'w sampler =
  env_reset :: "'w \<Rightarrow> obs \<times> 'w"
  env_step :: "act \<Rightarrow> 'w \<Rightarrow> (obs \<times> real \<times> bool) \<times> 'w"
  env_action_space :: space
  compute_action :: "obs list \<Rightarrow> 'w \<Rightarrow> act list \<times> 'w"

subsection \<open>\<open>_collect_samples\<close>\<close>

text \<open>The history lists of the loop, which become the arrays of the returned dict.\<close>

record trajectory =
  observations :: "obs list"
  next_observations :: "obs list"
  rewards :: "real list"
  dones :: "bool list"
  actions :: "act list"
  ep_rets :: "real list"
  ep_lens :: "nat list"

record segment = trajectory +
  total_timestep :: nat

text \<open>
  The local variables of the loop. The last three fields are not variables of the
  source; they keep what the source forgets, so that the calls of a run can be told
  apart afterwards: \<open>loop_worlds\<close> is the world at the start of every pass through
  the loop body, \<open>policy_outputs\<close> what \<open>compute_action\<close> returned in it, and
  \<open>env_inputs\<close> the argument of \<open>env.step\<close> in it.
\<close>

record 'w collect_state = trajectory +
  cur_ep_ret :: real
  current_ep_len :: nat
  obs :: obs
  world :: 'w
  loop_worlds :: "'w list"
  policy_outputs :: "act list list"
  env_inputs :: "act list"

text \<open>One pass through the body of \<open>while len(observations) < n_samples\<close>.\<close>

definition collect_body :: "'w sampler \<Rightarrow> 'w collect_state \<Rightarrow> py_error + 'w collect_state" where
  "collect_body E s =
     (case compute_action E [obs s] (world s) of
        (action, w1) \<Rightarrow>
          (case (case env_action_space E of
                   Box lo hi \<Rightarrow> np_clip action lo hi
                 | Discrete k \<Rightarrow> Inr action) of
             Inl e \<Rightarrow> Inl e
           | Inr clipped_action \<Rightarrow>
               (case clipped_action of
                  [] \<Rightarrow> Inl IndexError
                | c0 # cs \<Rightarrow>
                    (case env_step E c0 w1 of
                       ((next_obs, reward, done), w2) \<Rightarrow>
                         (case action of
                            [] \<Rightarrow> Inl IndexError
                          | a0 # as \<Rightarrow>
                              (let s1 = s\<lparr>observations := observations s @ [obs s],
                                          next_observations := next_observations s @ [next_obs],
                                          actions := actions s @ [a0],
                                          rewards := rewards s @ [reward],
                                          dones := dones s @ [done],
                                          obs := next_obs,
                                          cur_ep_ret := cur_ep_ret s + reward,
                                          current_ep_len := current_ep_len s + 1,
                                          world := w2,
                                          loop_worlds := loop_worlds s @ [world s],
                                          policy_outputs := policy_outputs s @ [action],
                                          env_inputs := env_inputs s @ [c0]\<rparr>
                               in Inr (if done
                                       then (case env_reset E w2 of
                                               (ob, w3) \<Rightarrow>
                                                 s1\<lparr>ep_rets := ep_rets s1 @ [cur_ep_ret s1],
                                                    ep_lens := ep_lens s1 @ [current_ep_len s1],
                                                    cur_ep_ret := 0,
                                                    current_ep_len := 0,
                                                    obs := ob,
                                                    world := w3\<rparr>)
                                       else s1)))))))"

function collect_loop :: "'w sampler \<Rightarrow> int \<Rightarrow> 'w collect_state \<Rightarrow> py_error + 'w collect_state" where
  "collect_loop E n_samples s =
     (if int (length (observations s)) < n_samples
      then (case collect_body E s of
              Inl e \<Rightarrow> Inl e
            | Inr s' \<Rightarrow> collect_loop E n_samples s')
      else Inr s)"
  by pat_completeness auto
termination
proof (relation "measure (\<lambda>(E, n_samples, s). nat (n_samples - int (length (observations s))))")
  show "wf (measure (\<lambda>(E, n_samples, s). nat (n_samples - int (length (observations s)))))"
    by simp
next
  fix E :: "'w sampler" and n_samples :: int and s s' :: "'w collect_state"
  assume less: "int (length (observations s)) < n_samples"
    and body: "collect_body E s = Inr s'"
  from body have "length (observations s') = Suc (length (observations s))"
    by (auto simp: collect_body_def Let_def
        split: prod.splits sum.splits list.splits space.splits if_splits)
  with less
  show "((E, n_samples, s'), (E, n_samples, s))
          \<in> measure (\<lambda>(E, n_samples, s). nat (n_samples - int (length (observations s))))"
    by simp
qed

declare collect_loop.simps [simp del]

text \<open>
  \<open>_collect_samples(n_samples)\<close>, started in world \<open>w0\<close>. It returns the dict (a
  \<open>segment\<close>) and, beside it, the final loop state with the world and the call logs.
\<close>

definition collect_samples ::
  "'w sampler \<Rightarrow> int \<Rightarrow> 'w \<Rightarrow> py_error + (segment \<times> 'w collect_state)" where
  "collect_samples E n_samples w0 =
     (case env_reset E w0 of
        (ob, w1) \<Rightarrow>
          (case collect_loop E n_samples
                  \<lparr>observations = [], next_observations = [], rewards = [], dones = [],
                   actions = [], ep_rets = [], ep_lens = [],
                   cur_ep_ret = 0, current_ep_len = 0, obs = ob, world = w1,
                   loop_worlds = [], policy_outputs = [], env_inputs = []\<rparr> of
             Inl e \<Rightarrow> Inl e
           | Inr s \<Rightarrow>
               Inr (\<lparr>observations = observations s,
                     next_observations = next_observations s,
                     rewards = rewards s,
                     dones = dones s,
                     actions = actions s,
                     ep_rets = ep_rets s,
                     ep_lens = ep_lens s,
                     total_timestep = length (observations s)\<rparr>, s)))"

subsection \<open>\<open>_add_vtarg_and_adv\<close>\<close>

text \<open>
  The function adds the keys \<open>adv\<close>, \<open>vpred\<close> and \<open>tdlamret\<close> to the dict and
  changes no other key. \<open>np.empty\<close> leaves the two arrays uninitialised; the loop
  writes every cell, and the model starts them at 0. The value function of the policy is
  called on a batch of one observation and read as a number.
\<close>

record gae_arrays =
  adv :: "real list"
  vpred :: "real list"

record gae_state = gae_arrays +
  lastgaelam :: real

record gae_result = gae_arrays +
  tdlamret :: "real list"

text \<open>The body of \<open>for step in reversed(range(rew_len))\<close>.\<close>

definition gae_body ::
  "(obs list \<Rightarrow> real) \<Rightarrow> segment \<Rightarrow> real \<Rightarrow> real \<Rightarrow> bool \<Rightarrow> nat \<Rightarrow> gae_state
     \<Rightarrow> py_error + gae_state" where
  "gae_body value_fn seg gamma lam ignore_dones step st =
     (if length (observations seg) \<le> step then Inl IndexError
      else if length (next_observations seg) \<le> step then Inl IndexError
      else if length (dones seg) \<le> step then Inl IndexError
      else
        (let vpred_step = value_fn [observations seg ! step];
             next_vpred = value_fn [next_observations seg ! step];
             notdone = (if ignore_dones then 1 else 1 - of_bool (dones seg ! step));
             delta = rewards seg ! step + gamma * notdone * next_vpred - vpred_step;
             a = delta + gamma * lam * (1 - of_bool (dones seg ! step)) * lastgaelam st
         in Inr (st\<lparr>vpred := (vpred st)[step := vpred_step],
                    adv := (adv st)[step := a],
                    lastgaelam := a\<rparr>)))"

fun gae_loop ::
  "(obs list \<Rightarrow> real) \<Rightarrow> segment \<Rightarrow> real \<Rightarrow> real \<Rightarrow> bool \<Rightarrow> nat list \<Rightarrow> gae_state
     \<Rightarrow> py_error + gae_state" where
  "gae_loop value_fn seg gamma lam ignore_dones [] st = Inr st"
| "gae_loop value_fn seg gamma lam ignore_dones (step # steps) st =
     (case gae_body value_fn seg gamma lam ignore_dones step st of
        Inl e \<Rightarrow> Inl e
      | Inr st' \<Rightarrow> gae_loop value_fn seg gamma lam ignore_dones steps st')"

definition add_vtarg_and_adv ::
  "(obs list \<Rightarrow> real) \<Rightarrow> segment \<Rightarrow> real \<Rightarrow> real \<Rightarrow> bool \<Rightarrow> py_error + gae_result" where
  "add_vtarg_and_adv value_fn seg gamma lam ignore_dones =
     (let rew_len = length (rewards seg) in
      case gae_loop value_fn seg gamma lam ignore_dones (rev [0..<rew_len])
             \<lparr>adv = replicate rew_len 0, vpred = replicate rew_len 0, lastgaelam = 0\<rparr> of
        Inl e \<Rightarrow> Inl e
      | Inr st \<Rightarrow>
          Inr \<lparr>adv = adv st, vpred = vpred st,
               tdlamret = map2 (+) (adv st) (vpred st)\<rparr>)"

subsection \<open>\<open>_log_training\<close>\<close>

text \<open>
  A value written to the statistics: a number, or NumPy's not-a-number. \<open>np.mean\<close>
  and \<open>np.std\<close> of an empty sequence return \<open>nan\<close> (with a warning, no
  exception); \<open>max\<close> and \<open>min\<close> are Python's built-ins, called with
  \<open>default=0\<close>.
\<close>

datatype stat = Num real | NaN

definition np_mean :: "real list \<Rightarrow> stat" where
  "np_mean xs = (if xs = [] then NaN else Num (sum_list xs / real (length xs)))"

definition np_std :: "real list \<Rightarrow> stat" where
  "np_std xs =
     (if xs = [] then NaN
      else (let m = sum_list xs / real (length xs)
            in Num (sqrt (sum_list (map (\<lambda>x. (abs (x - m))\<^sup>2) xs) / real (length xs)))))"

definition py_max :: "real list \<Rightarrow> real \<Rightarrow> real" where
  "py_max xs default_value = (case xs of [] \<Rightarrow> default_value | x # ys \<Rightarrow> fold max ys x)"

definition py_min :: "real list \<Rightarrow> real \<Rightarrow> real" where
  "py_min xs default_value = (case xs of [] \<Rightarrow> default_value | x # ys \<Rightarrow> fold min ys x)"

text \<open>\<open>deque(maxlen=40).extend(xs)\<close>: the oldest entries fall out.\<close>

definition deque_extend :: "nat \<Rightarrow> 'a list \<Rightarrow> 'a list \<Rightarrow> 'a list" where
  "deque_extend maxlen d xs = (let ys = d @ xs in drop (length ys - maxlen) ys)"

text \<open>The attributes of \<open>RLAlgorithm\<close> that the logging step reads and writes.\<close>

record algorithm_state =
  len_buffer :: "nat list"
  reward_buffer :: "real list"
  episodes_so_far :: nat
  timesteps_so_far :: nat
  iters_so_far :: nat
  loss_names :: "string list"

text \<open>The five updates of the counters and rolling buffers.\<close>

definition update_counters :: "algorithm_state \<Rightarrow> segment \<Rightarrow> algorithm_state" where
  "update_counters self seg =
     self\<lparr>len_buffer := deque_extend 40 (len_buffer self) (ep_lens seg),
          reward_buffer := deque_extend 40 (reward_buffer self) (ep_rets seg),
          episodes_so_far := episodes_so_far self + length (ep_lens seg),
          timesteps_so_far := timesteps_so_far self + total_timestep seg,
          iters_so_far := iters_so_far self + 1\<rparr>"

text \<open>The dict literal \<open>stats\<close>, as a map from its keys.\<close>

definition training_stats ::
  "algorithm_state \<Rightarrow> real list \<Rightarrow> nat list \<Rightarrow> real \<Rightarrow> real \<Rightarrow> stat \<Rightarrow> (string \<rightharpoonup> stat)" where
  "training_stats self rews lens duration steps_per_second ev =
     [''episode_steps'' \<mapsto> np_mean (map real lens),
      ''mean_return_history'' \<mapsto> np_mean (reward_buffer self),
      ''mean_return'' \<mapsto> np_mean rews,
      ''max_return'' \<mapsto> Num (py_max rews 0),
      ''min_return'' \<mapsto> Num (py_min rews 0),
      ''std_return'' \<mapsto> np_std rews,
      ''episodes_this_itr'' \<mapsto> Num (real (length lens)),
      ''episodes_total'' \<mapsto> Num (real (episodes_so_far self)),
      ''total_steps'' \<mapsto> Num (real (timesteps_so_far self)),
      ''epoch'' \<mapsto> Num (real (iters_so_far self)),
      ''duration'' \<mapsto> Num duration,
      ''steps_per_second'' \<mapsto> Num steps_per_second,
      ''explained_variance'' \<mapsto> ev]"

text \<open>
  \<open>_log_training\<close>. \<open>time.time()\<close> is read twice, for \<open>duration\<close> and for
  \<open>steps_per_second\<close>; the two readings are \<open>now1\<close> and \<open>now2\<close>, and a
  division of the step count by an elapsed time of 0.0 is Python's
  \<open>ZeroDivisionError\<close>. \<open>explained_variance\<close> is a function of
  \<open>stable_baselines\<close> and a parameter here. The model returns the row of
  statistics and the updated attributes; writing the row to the CSV file and printing
  it are left out.
\<close>

definition log_training ::
  "(real list \<Rightarrow> real list \<Rightarrow> stat) \<Rightarrow> algorithm_state \<Rightarrow> real \<Rightarrow> real \<Rightarrow> real \<Rightarrow> segment
     \<Rightarrow> real list \<Rightarrow> real list \<Rightarrow> real list
     \<Rightarrow> py_error + ((string \<rightharpoonup> stat) \<times> algorithm_state)" where
  "log_training explained_variance self t_start now1 now2 seg mean_losses vpredbefore tdlamret_arr =
     (let lens = ep_lens seg;
          rews = ep_rets seg;
          self1 = update_counters self seg
      in if now2 - t_start = 0 then Inl ZeroDivisionError
         else
           (let stats = training_stats self1 rews lens (now1 - t_start)
                          (real (timesteps_so_far self1) / (now2 - t_start))
                          (explained_variance vpredbefore tdlamret_arr)
            in Inr (fold (\<lambda>(loss_name, loss_val) stats. stats(loss_name \<mapsto> Num loss_val))
                      (zip (loss_names self) mean_losses) stats,
                    self1)))"

section \<open>hbaselines/fcnet/sac.py\<close>

subsection \<open>Tensors\<close>

text \<open>
  The policy is a TensorFlow graph. A tensor of the graph is embedded as the value it
  takes in one \<open>sess.run\<close>, together with the variable scopes it depends on along a
  differentiable path: the scopes whose variables receive a gradient when the tensor is
  part of a loss. Placeholders and random draws depend on no scope, and
  \<open>tf.stop_gradient\<close> keeps the value and cuts every path. A tensor of shape
  \<open>[batch, 1]\<close> holds one number per row of the batch, a tensor of shape
  \<open>[batch, n]\<close> one list per row.
\<close>

datatype scope = Pi | Qf nat | TargetQf nat | LogAlpha

record 'a tensor =
  val :: 'a
  wrt :: "scope set"

definition placeholder :: "'a \<Rightarrow> 'a tensor" where
  "placeholder x = \<lparr>val = x, wrt = {}\<rparr>"

definition stop_gradient :: "'a tensor \<Rightarrow> 'a tensor" where
  "stop_gradient t = t\<lparr>wrt := {}\<rparr>"

text \<open>An operation applied to every row, and one that combines two tensors row by row.\<close>

definition t_map :: "('a \<Rightarrow> 'b) \<Rightarrow> 'a list tensor \<Rightarrow> 'b list tensor" where
  "t_map f t = \<lparr>val = map f (val t), wrt = wrt t\<rparr>"

definition t_map2 :: "('a \<Rightarrow> 'b \<Rightarrow> 'c) \<Rightarrow> 'a list tensor \<Rightarrow> 'b list tensor \<Rightarrow> 'c list tensor" where
  "t_map2 f a b = \<lparr>val = map2 f (val a) (val b), wrt = wrt a \<union> wrt b\<rparr>"

text \<open>A scalar tensor times a \<open>[batch, 1]\<close> tensor (broadcast).\<close>

definition t_scale :: "real tensor \<Rightarrow> real list tensor \<Rightarrow> real list tensor" where
  "t_scale s t = \<lparr>val = map (\<lambda>x. val s * x) (val t), wrt = wrt s \<union> wrt t\<rparr>"

definition reduce_mean :: "real list tensor \<Rightarrow> real tensor" where
  "reduce_mean t = \<lparr>val = sum_list (val t) / real (length (val t)), wrt = wrt t\<rparr>"

text \<open>
  \<open>tf.compat.v1.losses.mean_squared_error(labels, predictions)\<close> and
  \<open>tf.compat.v1.losses.huber_loss(labels, predictions)\<close> with their defaults
  (\<open>weights = 1.0\<close>, \<open>delta = 1.0\<close>, reduction \<open>SUM_BY_NONZERO_WEIGHTS\<close>): the
  sum of the element losses divided by their number, and 0 for no element.
\<close>

definition mean_squared_error :: "real list tensor \<Rightarrow> real list tensor \<Rightarrow> real tensor" where
  "mean_squared_error labels predictions =
     reduce_mean (t_map2 (\<lambda>l p. (p - l)\<^sup>2) labels predictions)"

definition huber_loss :: "real list tensor \<Rightarrow> real list tensor \<Rightarrow> real tensor" where
  "huber_loss labels predictions =
     reduce_mean
       (t_map2 (\<lambda>l p. let error = p - l;
                         abs_error = \<bar>error\<bar>;
                         quadratic = min abs_error 1;
                         linear = abs_error - quadratic
                     in 0.5 * quadratic\<^sup>2 + 1 * linear)
          labels predictions)"

subsection \<open>The policy object\<close>

definition LOG_STD_MAX :: real where "LOG_STD_MAX = 2"

definition LOG_STD_MIN :: real where "LOG_STD_MIN = - 20"

text \<open>
  The attributes the graph is built from. \<open>ac_low\<close> and \<open>ac_high\<close> are
  \<open>ac_space.low\<close> and \<open>ac_space.high\<close>, \<open>sac_gamma\<close> is \<open>self.gamma\<close>, and
  \<open>log_alpha\<close> is the current value of the variable of that name. The layers of the
  networks are built by \<open>_layer\<close> and \<open>_remove_fingerprint\<close> of the base class
  \<open>ActorCriticPolicy\<close> in \<open>hbaselines/fcnet/base.py\<close>, another module, so the
  networks are parameters:
  \<open>actor_net\<close> maps one observation to the \<open>2 * ac_dim\<close> outputs of the actor's
  output layer under the current variables of scope \<open>model/pi\<close>, and
  \<open>critic_net sc\<close> maps one concatenated row to the output of the critic whose
  variables live in scope \<open>sc\<close>.
\<close>

record policy =
  ac_low :: "real list"
  ac_high :: "real list"
  sac_gamma :: real
  use_huber :: bool
  target_entropy :: real
  log_alpha :: real
  actor_net :: "real list \<Rightarrow> real list"
  critic_net :: "scope \<Rightarrow> real list \<Rightarrow> real"

text \<open>The placeholders, as fed by one \<open>feed_dict\<close>.\<close>

record feed =
  obs_ph :: "real list list"
  action_ph :: "real list list"
  rew_ph :: "real list"
  obs1_ph :: "real list list"
  terminals1 :: "real list"

subsection \<open>\<open>_compute_log_pis\<close> and \<open>make_actor\<close>\<close>

text \<open>
  Both functions work on whole batches with operations that act on every row alone;
  the model computes one row. \<open>policy\<close>, \<open>pi_mean\<close> and \<open>pi_logstd\<close> are the
  rows of the tensors of those names. The constructor gives the output layer
  \<open>2 * ac_dim\<close> units and draws \<open>ac_dim\<close> noise values, so every list combined
  here has \<open>ac_dim\<close> entries; TensorFlow refuses other shapes when the graph is
  built, and the model pairs lists up to the shorter one.
\<close>

definition compute_log_pis ::
  "policy \<Rightarrow> real list \<Rightarrow> real list \<Rightarrow> real list \<Rightarrow> real \<Rightarrow> real" where
  "compute_log_pis self policy pi_mean pi_logstd eps =
     (let ac_means = map2 (\<lambda>h l. (h + l) / 2) (ac_high self) (ac_low self);
          ac_magnitudes = map2 (\<lambda>h l. (h - l) / 2) (ac_high self) (ac_low self);
          policy = map2 (\<lambda>a m. a / m) (map2 (\<lambda>a m. a - m) policy ac_means) ac_magnitudes;
          pre_sum = map (\<lambda>(a, mu, logstd).
                            - 0.5 * (((a - mu) / (exp logstd + eps))\<^sup>2
                                     + 2 * logstd + ln (2 * pi)))
                      (zip policy (zip pi_mean pi_logstd));
          pre_sum = sum_list pre_sum;
          log_pi_fn = pre_sum - sum_list (map (\<lambda>a. ln (1 - a\<^sup>2 + eps)) policy)
      in log_pi_fn)"

text \<open>
  One row of \<open>make_actor\<close>: the action and its log-probability. \<open>noise\<close> is the
  value of \<open>tf.random.normal(shape=[ac_dim])\<close> in this run, one draw shared by all
  rows. \<open>tf.split(output, 2, axis=-1)\<close> halves the output, and
  \<open>tf.clip_by_value(t, lo, hi)\<close> is \<open>maximum(minimum(t, hi), lo)\<close>.
\<close>

definition make_actor_row :: "policy \<Rightarrow> real list \<Rightarrow> real list \<Rightarrow> real list \<times> real" where
  "make_actor_row self noise ob =
     (let output = actor_net self ob;
          pi_mean = take (length output div 2) output;
          pi_logstd = drop (length output div 2) output;
          pi_logstd = map (\<lambda>x. max (min x LOG_STD_MAX) LOG_STD_MIN) pi_logstd;
          ac_means = map2 (\<lambda>h l. (h + l) / 2) (ac_high self) (ac_low self);
          ac_magnitudes = map2 (\<lambda>h l. (h - l) / 2) (ac_high self) (ac_low self);
          policy = map2 (\<lambda>m x. m + x) pi_mean (map2 (\<lambda>s z. s * z) (map exp pi_logstd) noise);
          policy = map2 (\<lambda>x m. x + m) (map2 (\<lambda>g x. g * x) ac_magnitudes (map tanh policy)) ac_means;
          log_pi = compute_log_pis self policy pi_mean pi_logstd (1 / 1000000)
      in (policy, log_pi))"

definition make_actor ::
  "policy \<Rightarrow> real list list \<Rightarrow> real list \<Rightarrow> real list list tensor \<times> real list tensor" where
  "make_actor self obs_b noise =
     (\<lparr>val = map (\<lambda>ob. fst (make_actor_row self noise ob)) obs_b, wrt = {Pi}\<rparr>,
      \<lparr>val = map (\<lambda>ob. snd (make_actor_row self noise ob)) obs_b, wrt = {Pi}\<rparr>)"

subsection \<open>\<open>make_critic\<close>\<close>

text \<open>\<open>tf.concat([obs, action], axis=-1)\<close>, then the critic of the scope.\<close>

definition make_critic ::
  "policy \<Rightarrow> real list list \<Rightarrow> real list list tensor \<Rightarrow> scope \<Rightarrow> real list tensor" where
  "make_critic self obs_b action sc =
     \<lparr>val = map2 (\<lambda>ob a. critic_net self sc (ob @ a)) obs_b (val action),
      wrt = insert sc (wrt action)\<rparr>"

subsection \<open>Step 3 of \<open>__init__\<close>: the networks\<close>

record networks =
  actor_tf :: "real list list tensor"
  log_pi :: "real list tensor"
  critic_tf :: "real list tensor list"
  critic_with_actor_tf :: "real list tensor list"
  actor_target :: "real list list tensor"
  next_log_pi :: "real list tensor"
  critic_target :: "real list tensor list"

text \<open>
  \<open>noise0\<close> and \<open>noise1\<close> are the draws of the two \<open>make_actor\<close> calls. The
  second call is made with \<open>reuse=True\<close> inside the scope \<open>model\<close>: it is the same
  actor, applied to \<open>obs1_ph\<close>.
\<close>

definition create_networks :: "policy \<Rightarrow> feed \<Rightarrow> real list \<Rightarrow> real list \<Rightarrow> networks" where
  "create_networks self fd noise0 noise1 =
     (let (actor_tf', log_pi') = make_actor self (obs_ph fd) noise0;
          critic_tf' = map (\<lambda>i. make_critic self (obs_ph fd) (placeholder (action_ph fd)) (Qf i))
                         [0..<2];
          critic_with_actor_tf' = map (\<lambda>i. make_critic self (obs_ph fd) actor_tf' (Qf i)) [0..<2];
          (actor_target', next_log_pi') = make_actor self (obs1_ph fd) noise1;
          critic_target' = map (\<lambda>i. make_critic self (obs1_ph fd) actor_target' (TargetQf i))
                             [0..<2]
      in \<lparr>actor_tf = actor_tf', log_pi = log_pi', critic_tf = critic_tf',
          critic_with_actor_tf = critic_with_actor_tf', actor_target = actor_target',
          next_log_pi = next_log_pi', critic_target = critic_target'\<rparr>)"

subsection \<open>\<open>_setup_actor_optimizer\<close>\<close>

record actor_setup =
  alpha :: "real tensor"
  alpha_loss :: "real tensor"
  actor_loss :: "real tensor"

definition setup_actor_optimizer :: "policy \<Rightarrow> networks \<Rightarrow> actor_setup" where
  "setup_actor_optimizer self nets =
     (let log_alpha_var = \<lparr>val = log_alpha self, wrt = {LogAlpha}\<rparr>;
          alpha' = \<lparr>val = exp (val log_alpha_var), wrt = wrt log_alpha_var\<rparr>;
          m = reduce_mean
                (t_scale log_alpha_var
                   (stop_gradient (t_map (\<lambda>x. x + target_entropy self) (log_pi nets))));
          alpha_loss' = \<lparr>val = - val m, wrt = wrt m\<rparr>;
          actor_loss' =
            reduce_mean
              (t_map2 (\<lambda>x y. x - y)
                 (t_scale alpha' (log_pi nets))
                 (t_map2 min (critic_tf nets ! 0) (critic_tf nets ! 1)))
      in \<lparr>alpha = alpha', alpha_loss = alpha_loss', actor_loss = actor_loss'\<rparr>)"

subsection \<open>\<open>_setup_critic_optimizer\<close>\<close>

record critic_setup =
  target_q :: "real list tensor"
  critic_loss :: "real tensor"

definition setup_critic_optimizer ::
  "policy \<Rightarrow> feed \<Rightarrow> networks \<Rightarrow> actor_setup \<Rightarrow> critic_setup" where
  "setup_critic_optimizer self fd nets act =
     (let q_obs1 = t_map2 (\<lambda>x y. x - y)
                     (t_map2 min (critic_target nets ! 0) (critic_target nets ! 1))
                     (t_scale (alpha act) (next_log_pi nets));
          target_q' =
            stop_gradient
              (t_map2 (\<lambda>x y. x + y) (placeholder (rew_ph fd))
                 (t_map2 (\<lambda>x y. x * y)
                    (t_map (\<lambda>x. x * sac_gamma self)
                       (t_map (\<lambda>d. 1 - d) (placeholder (terminals1 fd))))
                    q_obs1));
          loss_fn = (if use_huber self then huber_loss else mean_squared_error);
          l0 = loss_fn (critic_tf nets ! 0) target_q';
          l1 = loss_fn (critic_tf nets ! 1) target_q';
          critic_loss' = \<lparr>val = val l0 + val l1, wrt = wrt l0 \<union> wrt l1\<rparr>
      in \<lparr>target_q = target_q', critic_loss = critic_loss'\<rparr>)"

subsection \<open>\<open>update\<close> and \<open>update_from_batch\<close>\<close>

text \<open>
  The state of the policy object that an update can change: the replay buffer and the
  TensorFlow variables (online and target parameters, the temperature, the optimizers'
  slots). The replay buffer is a class of another module and the session belongs to
  TensorFlow, so their operations are parameters: \<open>can_sample\<close> and \<open>sample\<close>
  are the methods of the buffer (\<open>sample\<close> also returns the buffer after the draw), and
  \<open>run_step_ops fd v\<close> is \<open>sess.run(step_ops, feed_dict)\<close> on variables \<open>v\<close>,
  which returns the losses in front of the other fetched values, and the variables after
  the run.
\<close>

record ('b, 'v) sac_state =
  replay_buffer :: 'b
  variables :: 'v

definition update_from_batch ::
  "(feed \<Rightarrow> 'v \<Rightarrow> (real \<times> real \<times> 'r) \<times> 'v) \<Rightarrow> ('b, 'v) sac_state
     \<Rightarrow> real list list \<Rightarrow> real list list \<Rightarrow> real list \<Rightarrow> real list list \<Rightarrow> real list
     \<Rightarrow> (real \<times> real) \<times> ('b, 'v) sac_state" where
  "update_from_batch run_step_ops self obs0 actions_b rewards_b obs1 terminals1_b =
     (let feed_dict = \<lparr>obs_ph = obs0, action_ph = actions_b, rew_ph = rewards_b,
                        obs1_ph = obs1, terminals1 = terminals1_b\<rparr>
      in case run_step_ops feed_dict (variables self) of
           ((critic_loss_v, actor_loss_v, rest), v') \<Rightarrow>
             ((critic_loss_v, actor_loss_v), self\<lparr>variables := v'\<rparr>))"

definition update ::
  "('b \<Rightarrow> bool)
     \<Rightarrow> ('b \<Rightarrow> (real list list \<times> real list list \<times> real list \<times> real list list \<times> 'x \<times> real list) \<times> 'b)
     \<Rightarrow> (feed \<Rightarrow> 'v \<Rightarrow> (real \<times> real \<times> 'r) \<times> 'v)
     \<Rightarrow> ('b, 'v) sac_state \<Rightarrow> (real \<times> real) \<times> ('b, 'v) sac_state" where
  "update can_sample sample run_step_ops self =
     (if \<not> can_sample (replay_buffer self) then ((0, 0), self)
      else
        (case sample (replay_buffer self) of
           ((obs0, actions_b, rewards_b, obs1, extra, done1), buffer') \<Rightarrow>
             update_from_batch run_step_ops (self\<lparr>replay_buffer := buffer'\<rparr>)
               obs0 actions_b rewards_b obs1 done1))"

section \<open>Notions used to state the properties\<close>

subsection \<open>Advantage estimation\<close>

text \<open>
  The temporal-difference residual of one step, as the loop body computes it:
  \<open>delta = rewards[step] + gamma * notdone * next_vpred - vpred\<close>.
\<close>

definition gae_delta :: "(obs list \<Rightarrow> real) \<Rightarrow> segment \<Rightarrow> real \<Rightarrow> bool \<Rightarrow> nat \<Rightarrow> real" where
  "gae_delta value_fn seg gamma ignore_dones step =
     rewards seg ! step
       + gamma * (if ignore_dones then 1 else 1 - of_bool (dones seg ! step))
           * value_fn [next_observations seg ! step]
       - value_fn [observations seg ! step]"

text \<open>A three-step trajectory with reward 1 at every step and no episode end.\<close>

definition three_steps :: segment where
  "three_steps =
     \<lparr>observations = [[0], [1], [2]],
      next_observations = [[1], [2], [3]],
      rewards = [1, 1, 1],
      dones = [False, False, False],
      actions = [[0], [0], [0]],
      ep_rets = [], ep_lens = [], total_timestep = 3\<rparr>"

text \<open>A two-step trajectory whose first step ends an episode.\<close>

definition done_in_the_middle :: segment where
  "done_in_the_middle =
     \<lparr>observations = [[0], [1]],
      next_observations = [[1], [2]],
      rewards = [1, 1],
      dones = [True, False],
      actions = [[0], [0]],
      ep_rets = [1], ep_lens = [1], total_timestep = 2\<rparr>"

subsection \<open>Sampling\<close>

text \<open>
  The completed episodes of a run, read off the \<open>dones\<close> array alone. An episode
  ends at every step whose flag is set; \<open>episode_ends\<close> lists, in order, the number
  of steps collected when each of them ends. Each completed episode is the span from the
  end of the one before it (0 for the first) to its own end. Steps after the last set
  flag belong to no span.
\<close>

definition episode_ends :: "bool list \<Rightarrow> nat list" where
  "episode_ends ds = map Suc (filter (\<lambda>i. ds ! i) [0..<length ds])"

definition episode_spans :: "bool list \<Rightarrow> (nat \<times> nat) list" where
  "episode_spans ds = zip (0 # episode_ends ds) (episode_ends ds)"

definition completed_lens :: "bool list \<Rightarrow> nat list" where
  "completed_lens ds = map (\<lambda>(first, end). end - first) (episode_spans ds)"

definition completed_rets :: "real list \<Rightarrow> bool list \<Rightarrow> real list" where
  "completed_rets rs ds =
     map (\<lambda>(first, end). sum_list (take (end - first) (drop first rs))) (episode_spans ds)"

text \<open>
  What the sampler needs from \<open>compute_action\<close>: a batch with at least one row, on
  which \<open>np.clip\<close> with the bounds of the \<open>Box\<close> does not raise.
\<close>

definition action_batch_ok :: "space \<Rightarrow> act list \<Rightarrow> bool" where
  "action_batch_ok sp batch =
     (batch \<noteq> [] \<and>
      (case sp of
         Box lo hi \<Rightarrow> (case np_clip batch lo hi of Inl e \<Rightarrow> False | Inr c \<Rightarrow> True)
       | Discrete k \<Rightarrow> True))"

text \<open>The loop invariants used in the proofs: the bookkeeping of episodes, and the call logs.\<close>

definition collect_inv :: "'w collect_state \<Rightarrow> bool" where
  "collect_inv s =
     (length (next_observations s) = length (observations s)
      \<and> length (rewards s) = length (observations s)
      \<and> length (dones s) = length (observations s)
      \<and> length (actions s) = length (observations s)
      \<and> ep_lens s = completed_lens (dones s)
      \<and> ep_rets s = completed_rets (rewards s) (dones s)
      \<and> current_ep_len s = length (dones s) - last (0 # episode_ends (dones s))
      \<and> cur_ep_ret s = sum_list (drop (last (0 # episode_ends (dones s))) (rewards s)))"

definition calls_inv :: "'w sampler \<Rightarrow> 'w \<Rightarrow> 'w collect_state \<Rightarrow> bool" where
  "calls_inv E w0 s =
     (length (observations s) = length (actions s)
      \<and> length (next_observations s) = length (actions s)
      \<and> length (rewards s) = length (actions s)
      \<and> length (dones s) = length (actions s)
      \<and> length (loop_worlds s) = length (actions s)
      \<and> length (policy_outputs s) = length (actions s)
      \<and> length (env_inputs s) = length (actions s)
      \<and> ((observations s @ [obs s]) ! 0, (loop_worlds s @ [world s]) ! 0) = env_reset E w0
      \<and> (\<forall>i<length (actions s).
            \<exists>w1 w2.
              compute_action E [observations s ! i] (loop_worlds s ! i)
                = (policy_outputs s ! i, w1)
              \<and> policy_outputs s ! i \<noteq> []
              \<and> actions s ! i = hd (policy_outputs s ! i)
              \<and> (case env_action_space E of
                    Box lo hi \<Rightarrow> np_clip_row (actions s ! i) lo hi = Inr (env_inputs s ! i)
                  | Discrete k \<Rightarrow> env_inputs s ! i = actions s ! i)
              \<and> env_step E (env_inputs s ! i) w1
                    = ((next_observations s ! i, rewards s ! i, dones s ! i), w2)
              \<and> ((observations s @ [obs s]) ! Suc i, (loop_worlds s @ [world s]) ! Suc i)
                    = (if dones s ! i then env_reset E w2 else (next_observations s ! i, w2))))"

text \<open>
  A small environment: every episode lasts two steps, every step pays 1, and the policy
  always answers 5 in an action space bounded by -1 and 1.
\<close>

definition toy_sampler :: "nat sampler" where
  "toy_sampler =
     \<lparr>env_reset = (\<lambda>w. ([0], 0)),
      env_step = (\<lambda>a w. (([real (Suc w)], 1, Suc w = 2), Suc w)),
      env_action_space = Box [-1] [1],
      compute_action = (\<lambda>batch w. ([[5]], w))\<rparr>"

text \<open>
  An environment that shows what it was stepped with: the next observation is the
  action it received. No episode ends. The policy always answers 5 in an action space
  bounded by -1 and 1.
\<close>

definition echo_sampler :: "nat sampler" where
  "echo_sampler =
     \<lparr>env_reset = (\<lambda>w. ([0], 0)),
      env_step = (\<lambda>a w. ((a, 1, False), Suc w)),
      env_action_space = Box [-1] [1],
      compute_action = (\<lambda>batch w. ([[5]], w))\<rparr>"

subsection \<open>Logging\<close>

text \<open>An algorithm object before its first iteration, with one loss name.\<close>

definition fresh_algorithm :: algorithm_state where
  "fresh_algorithm =
     \<lparr>len_buffer = [], reward_buffer = [], episodes_so_far = 0, timesteps_so_far = 0,
      iters_so_far = 0, loss_names = [''policy_loss'']\<rparr>"

text \<open>A segment of two steps in which no episode ended.\<close>

definition no_episode_segment :: segment where
  "no_episode_segment =
     \<lparr>observations = [[0], [1]],
      next_observations = [[1], [2]],
      rewards = [1, 1],
      dones = [False, False],
      actions = [[0], [0]],
      ep_rets = [], ep_lens = [], total_timestep = 2\<rparr>"

subsection \<open>The critic loss\<close>

text \<open>
  The two regression losses as they are usually written: the Huber loss with threshold
  1, and the squared error, each averaged over the batch.
\<close>

definition huber :: "real \<Rightarrow> real" where
  "huber e = (if \<bar>e\<bar> \<le> 1 then e\<^sup>2 / 2 else \<bar>e\<bar> - 1 / 2)"

definition mean_over :: "real list \<Rightarrow> real" where
  "mean_over xs = sum_list xs / real (length xs)"

definition regression_loss :: "bool \<Rightarrow> real list \<Rightarrow> real list \<Rightarrow> real" where
  "regression_loss with_huber predictions target =
     mean_over (map2 (\<lambda>q t. if with_huber then huber (t - q) else (t - q)\<^sup>2) predictions target)"

text \<open>The prediction of critic \<open>k\<close> on the fed batch: observations with the fed actions.\<close>

definition critic_on_batch :: "policy \<Rightarrow> feed \<Rightarrow> nat \<Rightarrow> real list" where
  "critic_on_batch self fd k =
     map2 (\<lambda>ob a. critic_net self (Qf k) (ob @ a)) (obs_ph fd) (action_ph fd)"

subsection \<open>The actor loss and the log-probability of soft actor-critic\<close>

text \<open>
  The actor loss with the twin critics evaluated at the actor's own sampled action:
  \<open>mean(alpha * log_pi - min(Q1_pi, Q2_pi))\<close>.
\<close>

definition actor_loss_claimed :: "networks \<Rightarrow> actor_setup \<Rightarrow> real" where
  "actor_loss_claimed nets act =
     mean_over
       (map2 (\<lambda>x q. x - q)
          (map (\<lambda>lp. val (alpha act) * lp) (val (log_pi nets)))
          (map2 min (val (critic_with_actor_tf nets ! 0)) (val (critic_with_actor_tf nets ! 1))))"

text \<open>
  The log-probability of a squashed action: the Gaussian log-density with mean
  \<open>pi_mean\<close> and standard deviation \<open>exp pi_logstd\<close> at the value before the
  \<open>tanh\<close>, minus \<open>log(1 - normalized_action^2 + eps)\<close> for every dimension.
\<close>

definition squashed_gaussian_log_prob ::
  "real list \<Rightarrow> real list \<Rightarrow> real list \<Rightarrow> real list \<Rightarrow> real \<Rightarrow> real" where
  "squashed_gaussian_log_prob pre_squash pi_mean pi_logstd normalized_action eps =
     sum_list (map (\<lambda>(u, mu, logstd).
                      - 0.5 * (((u - mu) / exp logstd)\<^sup>2 + 2 * logstd + ln (2 * pi)))
                 (zip pre_squash (zip pi_mean pi_logstd)))
     - sum_list (map (\<lambda>a. ln (1 - a\<^sup>2 + eps)) normalized_action)"

subsection \<open>Concrete policies and batches\<close>

text \<open>
  A one-dimensional action space from -1 to 1, an actor whose output layer gives mean 0
  and log-std 0, critics that add up their input row, and a batch of one transition
  whose stored action is 5.
\<close>

definition example_policy :: policy where
  "example_policy =
     \<lparr>ac_low = [-1], ac_high = [1], sac_gamma = 1/2, use_huber = False,
      target_entropy = -1, log_alpha = 0,
      actor_net = (\<lambda>ob. [0, 0]),
      critic_net = (\<lambda>sc row. sum_list row)\<rparr>"

definition example_feed :: feed where
  "example_feed =
     \<lparr>obs_ph = [[0]], action_ph = [[5]], rew_ph = [1], obs1_ph = [[0]], terminals1 = [0]\<rparr>"

text \<open>The same policy with an actor whose output layer gives mean 5 and log-std 0.\<close>

definition far_mean_policy :: policy where
  "far_mean_policy =
     \<lparr>ac_low = [-1], ac_high = [1], sac_gamma = 1/2, use_huber = False,
      target_entropy = -1, log_alpha = 0,
      actor_net = (\<lambda>ob. [5, 0]),
      critic_net = (\<lambda>sc row. sum_list row)\<rparr>"

subsection \<open>A replay buffer\<close>

text \<open>
  Modelled from the spec: the class \<open>ReplayBuffer\<close> of
  \<open>hbaselines/fcnet/replay_buffer.py\<close>, whose code is in another module. Of the
  buffer only the number of stored transitions and the batch size are kept, and
  \<open>can_sample()\<close> is true iff the stored count is at least the batch size.
\<close>

record replay_buffer_spec =
  stored_count :: nat
  batch_size :: nat

definition buffer_can_sample :: "replay_buffer_spec \<Rightarrow> bool" where
  "buffer_can_sample b = (batch_size b \<le> stored_count b)"

text \<open>
  A stand-in for the session, which counts its runs in the variables and reports both
  losses as 1, and a stand-in for \<open>sample()\<close>, which returns an empty batch.
\<close>

definition counting_run :: "feed \<Rightarrow> nat \<Rightarrow> (real \<times> real \<times> unit) \<times> nat" where
  "counting_run fd v = ((1, 1, ()), Suc v)"

definition empty_sample ::
  "replay_buffer_spec \<Rightarrow>
     (real list list \<times> real list list \<times> real list \<times> real list list \<times> unit \<times> real list)
       \<times> replay_buffer_spec" where
  "empty_sample b = (([], [], [], [], (), []), b)"

section \<open>Properties of the advantage estimator\<close>

lemma gae_body_ok:
  assumes "step < length (observations seg)" "step < length (next_observations seg)"
    "step < length (dones seg)"
  shows "gae_body value_fn seg gamma lam ignore_dones step st =
     Inr (st\<lparr>vpred := (vpred st)[step := value_fn [observations seg ! step]],
             adv := (adv st)[step := gae_delta value_fn seg gamma ignore_dones step
                      + gamma * lam * (1 - of_bool (dones seg ! step)) * lastgaelam st],
             lastgaelam := gae_delta value_fn seg gamma ignore_dones step
                      + gamma * lam * (1 - of_bool (dones seg ! step)) * lastgaelam st\<rparr>)"
  using assms by (simp add: gae_body_def gae_delta_def Let_def)

lemma gae_loop_rev_upt:
  assumes "k \<le> length (observations seg)" "k \<le> length (next_observations seg)"
    "k \<le> length (dones seg)" "k \<le> length (adv st)" "k \<le> length (vpred st)"
  shows "\<exists>st'. gae_loop value_fn seg gamma lam ignore_dones (rev [0..<k]) st = Inr st'
      \<and> length (adv st') = length (adv st) \<and> length (vpred st') = length (vpred st)
      \<and> (\<forall>i. k \<le> i \<longrightarrow> adv st' ! i = adv st ! i \<and> vpred st' ! i = vpred st ! i)
      \<and> (\<forall>i<k. vpred st' ! i = value_fn [observations seg ! i])
      \<and> (\<forall>i<k. adv st' ! i = gae_delta value_fn seg gamma ignore_dones i
             + gamma * lam * (1 - of_bool (dones seg ! i))
                 * (if Suc i < k then adv st' ! Suc i else lastgaelam st))"
  using assms
proof (induction k arbitrary: st)
  case 0
  then show ?case by simp
next
  case (Suc k)
  let ?a = "gae_delta value_fn seg gamma ignore_dones k
             + gamma * lam * (1 - of_bool (dones seg ! k)) * lastgaelam st"
  let ?st1 = "st\<lparr>vpred := (vpred st)[k := value_fn [observations seg ! k]],
             adv := (adv st)[k := ?a], lastgaelam := ?a\<rparr>"
  have body: "gae_body value_fn seg gamma lam ignore_dones k st = Inr ?st1"
    using Suc.prems by (intro gae_body_ok) simp_all
  have "k \<le> length (observations seg)" "k \<le> length (next_observations seg)"
    "k \<le> length (dones seg)" "k \<le> length (adv ?st1)" "k \<le> length (vpred ?st1)"
    using Suc.prems by simp_all
  from Suc.IH[OF this] obtain st' where
    loop: "gae_loop value_fn seg gamma lam ignore_dones (rev [0..<k]) ?st1 = Inr st'"
    and la: "length (adv st') = length (adv ?st1)" and lv: "length (vpred st') = length (vpred ?st1)"
    and keep: "\<forall>i. k \<le> i \<longrightarrow> adv st' ! i = adv ?st1 ! i \<and> vpred st' ! i = vpred ?st1 ! i"
    and vp: "\<forall>i<k. vpred st' ! i = value_fn [observations seg ! i]"
    and ad: "\<forall>i<k. adv st' ! i = gae_delta value_fn seg gamma ignore_dones i
             + gamma * lam * (1 - of_bool (dones seg ! i))
                 * (if Suc i < k then adv st' ! Suc i else lastgaelam ?st1)"
    by blast
  have run: "gae_loop value_fn seg gamma lam ignore_dones (rev [0..<Suc k]) st = Inr st'"
    using body loop by simp
  have atk: "adv st' ! k = ?a" "vpred st' ! k = value_fn [observations seg ! k]"
    using keep Suc.prems by simp_all
  have keep': "\<forall>i. Suc k \<le> i \<longrightarrow> adv st' ! i = adv st ! i \<and> vpred st' ! i = vpred st ! i"
    using keep by simp
  have vp': "\<forall>i<Suc k. vpred st' ! i = value_fn [observations seg ! i]"
    using vp atk by (simp add: less_Suc_eq)
  have ad': "\<forall>i<Suc k. adv st' ! i = gae_delta value_fn seg gamma ignore_dones i
             + gamma * lam * (1 - of_bool (dones seg ! i))
                 * (if Suc i < Suc k then adv st' ! Suc i else lastgaelam st)"
  proof (intro allI impI)
    fix i assume "i < Suc k"
    then consider "i = k" | "Suc i = k" | "Suc i < k" by linarith
    then show "adv st' ! i = gae_delta value_fn seg gamma ignore_dones i
             + gamma * lam * (1 - of_bool (dones seg ! i))
                 * (if Suc i < Suc k then adv st' ! Suc i else lastgaelam st)"
    proof cases
      case 1 then show ?thesis using atk by simp
    next
      case 2 then show ?thesis using ad atk by auto
    next
      case 3 then show ?thesis using ad by auto
    qed
  qed
  show ?case using run la lv keep' vp' ad' by simp
qed

lemma geometric_unroll:
  fixes a d :: "nat \<Rightarrow> real"
  assumes "\<forall>i<n. a i = d i + c * (if Suc i < n then a (Suc i) else 0)"
  shows "i < n \<Longrightarrow> a i = (\<Sum>k<n - i. c ^ k * d (i + k))"
proof (induction "n - i" arbitrary: i)
  case 0
  then show ?case by simp
next
  case (Suc m)
  have step: "a i = d i + c * (if Suc i < n then a (Suc i) else 0)"
    using assms Suc.prems by blast
  show ?case
  proof (cases "Suc i < n")
    case True
    have m: "m = n - Suc i" using Suc.hyps(2) by simp
    have ih: "a (Suc i) = (\<Sum>k<n - Suc i. c ^ k * d (Suc i + k))"
      using Suc.hyps(1)[OF m True] .
    have "(\<Sum>k<n - i. c ^ k * d (i + k)) = (\<Sum>k<Suc (n - Suc i). c ^ k * d (i + k))"
      using True by (simp add: Suc_diff_Suc)
    also have "\<dots> = d i + (\<Sum>k<n - Suc i. c ^ Suc k * d (i + Suc k))"
      by (subst sum.lessThan_Suc_shift) simp
    also have "\<dots> = d i + c * (\<Sum>k<n - Suc i. c ^ k * d (Suc i + k))"
      by (simp add: sum_distrib_left mult.assoc)
    finally show ?thesis using step ih True by simp
  next
    case False
    then have "n - i = 1" using Suc.prems by simp
    then show ?thesis using step False by simp
  qed
qed

lemma add_vtarg_and_adv_total:
  assumes "length (rewards seg) \<le> length (observations seg)"
    "length (rewards seg) \<le> length (next_observations seg)"
    "length (rewards seg) \<le> length (dones seg)"
  shows "\<exists>res. add_vtarg_and_adv value_fn seg gamma lam ignore_dones = Inr res
      \<and> length (adv res) = length (rewards seg)
      \<and> length (vpred res) = length (rewards seg)
      \<and> tdlamret res = map2 (+) (adv res) (vpred res)
      \<and> (\<forall>i<length (rewards seg). vpred res ! i = value_fn [observations seg ! i])
      \<and> (\<forall>i<length (rewards seg). adv res ! i = gae_delta value_fn seg gamma ignore_dones i
             + gamma * lam * (1 - of_bool (dones seg ! i))
                 * (if Suc i < length (rewards seg) then adv res ! Suc i else 0))"
proof -
  let ?n = "length (rewards seg)"
  let ?st0 = "\<lparr>adv = replicate ?n 0, vpred = replicate ?n 0, lastgaelam = 0\<rparr>"
  have "?n \<le> length (adv ?st0)" "?n \<le> length (vpred ?st0)" by simp_all
  from gae_loop_rev_upt[OF assms this, of value_fn gamma lam ignore_dones]
  obtain st' where
    loop: "gae_loop value_fn seg gamma lam ignore_dones (rev [0..<?n]) ?st0 = Inr st'"
    and la: "length (adv st') = length (adv ?st0)" and lv: "length (vpred st') = length (vpred ?st0)"
    and vp: "\<forall>i<?n. vpred st' ! i = value_fn [observations seg ! i]"
    and ad: "\<forall>i<?n. adv st' ! i = gae_delta value_fn seg gamma ignore_dones i
             + gamma * lam * (1 - of_bool (dones seg ! i))
                 * (if Suc i < ?n then adv st' ! Suc i else lastgaelam ?st0)"
    by blast
  have "add_vtarg_and_adv value_fn seg gamma lam ignore_dones =
      Inr \<lparr>adv = adv st', vpred = vpred st', tdlamret = map2 (+) (adv st') (vpred st')\<rparr>"
    using loop by (simp add: add_vtarg_and_adv_def Let_def)
  then show ?thesis using la lv vp ad by simp
qed

lemma three_steps_run:
  "add_vtarg_and_adv (\<lambda>batch. 0) three_steps (1/2) (1/2) False =
     Inr \<lparr>adv = [21/16, 5/4, 1], vpred = [0, 0, 0], tdlamret = [21/16, 5/4, 1]\<rparr>"
  by (simp add: add_vtarg_and_adv_def three_steps_def gae_body_def Let_def upt_rec)

text \<open>
  Claim C2. With arrays at least as long as \<open>rewards\<close>, the estimator returns, and
  for every step \<open>adv[step] = delta + gamma * lam * (1 - dones[step]) * lastgaelam\<close>,
  where \<open>lastgaelam\<close> is the advantage of the step after it (0 after the last step):
  the loop runs from the last step to the first. For a constant reward \<open>r\<close> and no
  episode end, the advantage of a step is the sum of the residuals of the steps from it
  on, weighted by the powers of \<open>gamma * lam\<close>; where the residual is the same at
  every step, that is the residual times the geometric series.
\<close>

theorem gae_backward_recursion:
  assumes "length (rewards seg) \<le> length (observations seg)"
    and "length (rewards seg) \<le> length (next_observations seg)"
    and "length (rewards seg) \<le> length (dones seg)"
  shows "\<exists>res. add_vtarg_and_adv value_fn seg gamma lam ignore_dones = Inr res
      \<and> length (adv res) = length (rewards seg)
      \<and> (\<forall>step<length (rewards seg).
            adv res ! step = gae_delta value_fn seg gamma ignore_dones step
              + gamma * lam * (1 - of_bool (dones seg ! step))
                  * (if Suc step < length (rewards seg) then adv res ! Suc step else 0))
      \<and> ((\<forall>step<length (rewards seg). rewards seg ! step = r \<and> \<not> dones seg ! step) \<longrightarrow>
           (\<forall>step<length (rewards seg).
              adv res ! step =
                (\<Sum>k<length (rewards seg) - step.
                   (gamma * lam) ^ k
                     * (r + gamma * value_fn [next_observations seg ! (step + k)]
                          - value_fn [observations seg ! (step + k)]))))
      \<and> ((\<forall>step<length (rewards seg). rewards seg ! step = r \<and> \<not> dones seg ! step
              \<and> value_fn [next_observations seg ! step] = v'
              \<and> value_fn [observations seg ! step] = v) \<longrightarrow>
           (\<forall>step<length (rewards seg).
              adv res ! step =
                (r + gamma * v' - v) * (\<Sum>k<length (rewards seg) - step. (gamma * lam) ^ k)))"
proof -
  let ?n = "length (rewards seg)"
  from add_vtarg_and_adv_total[OF assms, of value_fn gamma lam ignore_dones]
  obtain res where
    run: "add_vtarg_and_adv value_fn seg gamma lam ignore_dones = Inr res"
    and len: "length (adv res) = ?n"
    and rec: "\<forall>i<?n. adv res ! i = gae_delta value_fn seg gamma ignore_dones i
             + gamma * lam * (1 - of_bool (dones seg ! i))
                 * (if Suc i < ?n then adv res ! Suc i else 0)"
    by blast
  have sum_form: "\<forall>step<?n. adv res ! step =
        (\<Sum>k<?n - step. (gamma * lam) ^ k
             * (r + gamma * value_fn [next_observations seg ! (step + k)]
                  - value_fn [observations seg ! (step + k)]))"
    if const: "\<forall>step<?n. rewards seg ! step = r \<and> \<not> dones seg ! step"
  proof (intro allI impI)
    fix step assume step: "step < ?n"
    let ?d = "\<lambda>i. r + gamma * value_fn [next_observations seg ! i]
                  - value_fn [observations seg ! i]"
    have "\<forall>i<?n. adv res ! i = ?d i + (gamma * lam) * (if Suc i < ?n then adv res ! Suc i else 0)"
      using rec const by (simp add: gae_delta_def)
    from geometric_unroll[where a = "\<lambda>i. adv res ! i" and d = ?d, OF this step]
    show "adv res ! step = (\<Sum>k<?n - step. (gamma * lam) ^ k * ?d (step + k))" .
  qed
  have geo_form: "\<forall>step<?n. adv res ! step =
        (r + gamma * v' - v) * (\<Sum>k<?n - step. (gamma * lam) ^ k)"
    if const: "\<forall>step<?n. rewards seg ! step = r \<and> \<not> dones seg ! step
              \<and> value_fn [next_observations seg ! step] = v'
              \<and> value_fn [observations seg ! step] = v"
  proof (intro allI impI)
    fix step assume step: "step < ?n"
    have "\<forall>step<?n. rewards seg ! step = r \<and> \<not> dones seg ! step" using const by blast
    from sum_form[OF this] step
    have "adv res ! step = (\<Sum>k<?n - step. (gamma * lam) ^ k
             * (r + gamma * value_fn [next_observations seg ! (step + k)]
                  - value_fn [observations seg ! (step + k)]))" by blast
    also have "\<dots> = (\<Sum>k<?n - step. (gamma * lam) ^ k * (r + gamma * v' - v))"
      using const step by (intro sum.cong) auto
    also have "\<dots> = (r + gamma * v' - v) * (\<Sum>k<?n - step. (gamma * lam) ^ k)"
      by (simp add: sum_distrib_left mult.commute)
    finally show "adv res ! step = (r + gamma * v' - v) * (\<Sum>k<?n - step. (gamma * lam) ^ k)" .
  qed
  show ?thesis using run len rec sum_form geo_form by blast
qed

theorem gae_backward_recursion_witness:
  "length (rewards three_steps) \<le> length (observations three_steps)
   \<and> length (rewards three_steps) \<le> length (next_observations three_steps)
   \<and> length (rewards three_steps) \<le> length (dones three_steps)
   \<and> (\<exists>res. add_vtarg_and_adv (\<lambda>batch. 0) three_steps (1/2) (1/2) False = Inr res
        \<and> adv res = [21/16, 5/4, 1]
        \<and> adv res ! 1 = gae_delta (\<lambda>batch. 0) three_steps (1/2) False 1
                           + 1/2 * (1/2) * (1 - of_bool (dones three_steps ! 1)) * adv res ! 2
        \<and> adv res ! 0 = (1 + 1/2 * 0 - 0) * (\<Sum>k<3 - 0. (1/2 * (1/2)) ^ k))"
proof -
  have h1: "length (rewards three_steps) \<le> length (observations three_steps)"
    and h2: "length (rewards three_steps) \<le> length (next_observations three_steps)"
    and h3: "length (rewards three_steps) \<le> length (dones three_steps)"
    by (simp_all add: three_steps_def)
  have n: "length (rewards three_steps) = 3" by (simp add: three_steps_def)
  from gae_backward_recursion[OF h1 h2 h3, of "\<lambda>batch. 0" "1/2" "1/2" False 1 0 0]
  obtain res where
    run: "add_vtarg_and_adv (\<lambda>batch. 0) three_steps (1/2) (1/2) False = Inr res"
    and rec: "\<forall>step<length (rewards three_steps).
            adv res ! step = gae_delta (\<lambda>batch. 0) three_steps (1/2) False step
              + 1/2 * (1/2) * (1 - of_bool (dones three_steps ! step))
                  * (if Suc step < length (rewards three_steps) then adv res ! Suc step else 0)"
    and geo: "(\<forall>step<length (rewards three_steps).
              rewards three_steps ! step = 1 \<and> \<not> dones three_steps ! step
              \<and> (0::real) = 0 \<and> (0::real) = 0) \<longrightarrow>
           (\<forall>step<length (rewards three_steps).
              adv res ! step =
                (1 + 1/2 * 0 - 0) * (\<Sum>k<length (rewards three_steps) - step. (1/2 * (1/2)) ^ k))"
    by blast
  have const: "\<forall>step<length (rewards three_steps).
              rewards three_steps ! step = 1 \<and> \<not> dones three_steps ! step
              \<and> (0::real) = 0 \<and> (0::real) = 0"
    by (simp add: three_steps_def less_Suc_eq numeral_3_eq_3)
  have a0: "adv res ! 0 = (1 + 1/2 * 0 - 0) * (\<Sum>k<3 - 0. (1/2 * (1/2)) ^ k)"
    using geo const n by simp
  have a1: "adv res ! 1 = gae_delta (\<lambda>batch. 0) three_steps (1/2) False 1
                           + 1/2 * (1/2) * (1 - of_bool (dones three_steps ! 1)) * adv res ! 2"
    using rec n by (simp add: numeral_2_eq_2)
  have "adv res = [21/16, 5/4, 1]"
    using run three_steps_run by auto
  then show ?thesis using h1 h2 h3 run a0 a1 by blast
qed

text \<open>
  Claim C6. With \<open>ignore_dones\<close> set, the residual takes \<open>notdone = 1\<close> at every
  step, and the decay term still carries the factor \<open>1 - dones[step]\<close>; with the flag
  unset both carry it. At a step that ends an episode the advantage is therefore
  \<open>reward + gamma * next_vpred - vpred\<close> with the flag and \<open>reward - vpred\<close>
  without it.
\<close>

theorem ignore_dones_only_in_delta:
  assumes "length (rewards seg) \<le> length (observations seg)"
    and "length (rewards seg) \<le> length (next_observations seg)"
    and "length (rewards seg) \<le> length (dones seg)"
  shows "\<exists>flag_set flag_unset.
      add_vtarg_and_adv value_fn seg gamma lam True = Inr flag_set
      \<and> add_vtarg_and_adv value_fn seg gamma lam False = Inr flag_unset
      \<and> (\<forall>step<length (rewards seg).
            adv flag_set ! step =
              (rewards seg ! step + gamma * 1 * value_fn [next_observations seg ! step]
                 - value_fn [observations seg ! step])
              + gamma * lam * (1 - of_bool (dones seg ! step))
                  * (if Suc step < length (rewards seg) then adv flag_set ! Suc step else 0))
      \<and> (\<forall>step<length (rewards seg).
            adv flag_unset ! step =
              (rewards seg ! step
                 + gamma * (1 - of_bool (dones seg ! step)) * value_fn [next_observations seg ! step]
                 - value_fn [observations seg ! step])
              + gamma * lam * (1 - of_bool (dones seg ! step))
                  * (if Suc step < length (rewards seg) then adv flag_unset ! Suc step else 0))
      \<and> (\<forall>step<length (rewards seg). dones seg ! step \<longrightarrow>
            adv flag_set ! step =
              rewards seg ! step + gamma * value_fn [next_observations seg ! step]
                - value_fn [observations seg ! step]
            \<and> adv flag_unset ! step = rewards seg ! step - value_fn [observations seg ! step])"
proof -
  from add_vtarg_and_adv_total[OF assms, of value_fn gamma lam True]
  obtain flag_set where
    s1: "add_vtarg_and_adv value_fn seg gamma lam True = Inr flag_set"
    and s2: "\<forall>i<length (rewards seg). adv flag_set ! i = gae_delta value_fn seg gamma True i
             + gamma * lam * (1 - of_bool (dones seg ! i))
                 * (if Suc i < length (rewards seg) then adv flag_set ! Suc i else 0)"
    by blast
  from add_vtarg_and_adv_total[OF assms, of value_fn gamma lam False]
  obtain flag_unset where
    u1: "add_vtarg_and_adv value_fn seg gamma lam False = Inr flag_unset"
    and u2: "\<forall>i<length (rewards seg). adv flag_unset ! i = gae_delta value_fn seg gamma False i
             + gamma * lam * (1 - of_bool (dones seg ! i))
                 * (if Suc i < length (rewards seg) then adv flag_unset ! Suc i else 0)"
    by blast
  have c1: "\<forall>step<length (rewards seg).
            adv flag_set ! step =
              (rewards seg ! step + gamma * 1 * value_fn [next_observations seg ! step]
                 - value_fn [observations seg ! step])
              + gamma * lam * (1 - of_bool (dones seg ! step))
                  * (if Suc step < length (rewards seg) then adv flag_set ! Suc step else 0)"
    using s2 by (simp add: gae_delta_def)
  have c2: "\<forall>step<length (rewards seg).
            adv flag_unset ! step =
              (rewards seg ! step
                 + gamma * (1 - of_bool (dones seg ! step)) * value_fn [next_observations seg ! step]
                 - value_fn [observations seg ! step])
              + gamma * lam * (1 - of_bool (dones seg ! step))
                  * (if Suc step < length (rewards seg) then adv flag_unset ! Suc step else 0)"
    using u2 by (simp add: gae_delta_def)
  have c3: "\<forall>step<length (rewards seg). dones seg ! step \<longrightarrow>
            adv flag_set ! step =
              rewards seg ! step + gamma * value_fn [next_observations seg ! step]
                - value_fn [observations seg ! step]
            \<and> adv flag_unset ! step = rewards seg ! step - value_fn [observations seg ! step]"
    using c1 c2 by simp
  show ?thesis using s1 u1 c1 c2 c3 by blast
qed

theorem ignore_dones_only_in_delta_witness:
  "length (rewards done_in_the_middle) \<le> length (observations done_in_the_middle)
   \<and> length (rewards done_in_the_middle) \<le> length (next_observations done_in_the_middle)
   \<and> length (rewards done_in_the_middle) \<le> length (dones done_in_the_middle)
   \<and> dones done_in_the_middle ! 0
   \<and> (\<exists>flag_set flag_unset.
        add_vtarg_and_adv (\<lambda>batch. 1) done_in_the_middle (1/2) (1/2) True = Inr flag_set
        \<and> add_vtarg_and_adv (\<lambda>batch. 1) done_in_the_middle (1/2) (1/2) False = Inr flag_unset
        \<and> adv flag_set = [1/2, 1/2]
        \<and> adv flag_unset = [0, 1/2]
        \<and> adv flag_set ! 0 = 1 + 1/2 * 1 - 1
        \<and> adv flag_unset ! 0 = 1 - 1)"
proof -
  have h1: "length (rewards done_in_the_middle) \<le> length (observations done_in_the_middle)"
    and h2: "length (rewards done_in_the_middle) \<le> length (next_observations done_in_the_middle)"
    and h3: "length (rewards done_in_the_middle) \<le> length (dones done_in_the_middle)"
    and d0: "dones done_in_the_middle ! 0"
    and r0: "rewards done_in_the_middle ! 0 = 1"
    and n: "0 < length (rewards done_in_the_middle)"
    by (simp_all add: done_in_the_middle_def)
  from ignore_dones_only_in_delta[OF h1 h2 h3, of "\<lambda>batch. 1" "1/2" "1/2"]
  obtain flag_set flag_unset where
    s: "add_vtarg_and_adv (\<lambda>batch. 1) done_in_the_middle (1/2) (1/2) True = Inr flag_set"
    and u: "add_vtarg_and_adv (\<lambda>batch. 1) done_in_the_middle (1/2) (1/2) False = Inr flag_unset"
    and at_done: "\<forall>step<length (rewards done_in_the_middle). dones done_in_the_middle ! step \<longrightarrow>
            adv flag_set ! step =
              rewards done_in_the_middle ! step + 1/2 * 1 - 1
            \<and> adv flag_unset ! step = rewards done_in_the_middle ! step - 1"
    by blast
  have a: "adv flag_set ! 0 = 1 + 1/2 * 1 - 1" "adv flag_unset ! 0 = 1 - 1"
    using at_done n d0 r0 by auto
  have "add_vtarg_and_adv (\<lambda>batch. 1) done_in_the_middle (1/2) (1/2) True =
      Inr \<lparr>adv = [1/2, 1/2], vpred = [1, 1], tdlamret = [3/2, 3/2]\<rparr>"
    by (simp add: add_vtarg_and_adv_def done_in_the_middle_def gae_body_def Let_def upt_rec)
  with s have v1: "adv flag_set = [1/2, 1/2]" by auto
  have "add_vtarg_and_adv (\<lambda>batch. 1) done_in_the_middle (1/2) (1/2) False =
      Inr \<lparr>adv = [0, 1/2], vpred = [1, 1], tdlamret = [1, 3/2]\<rparr>"
    by (simp add: add_vtarg_and_adv_def done_in_the_middle_def gae_body_def Let_def upt_rec)
  with u have v2: "adv flag_unset = [0, 1/2]" by auto
  show ?thesis using h1 h2 h3 d0 s u v1 v2 a by blast
qed

section \<open>Properties of the sampler\<close>

lemma episode_ends_snoc:
  "episode_ends (ds @ [d]) = episode_ends ds @ (if d then [Suc (length ds)] else [])"
  by (auto simp: episode_ends_def nth_append intro!: filter_cong)

lemma episode_ends_le: "e \<in> set (episode_ends ds) \<Longrightarrow> e \<le> length ds"
  by (auto simp: episode_ends_def)

lemma zip_shift_snoc: "zip (x # xs @ [y]) (xs @ [y]) = zip (x # xs) xs @ [(last (x # xs), y)]"
  by (induction xs arbitrary: x) auto

lemma episode_spans_snoc:
  "episode_spans (ds @ [d]) =
     episode_spans ds @ (if d then [(last (0 # episode_ends ds), Suc (length ds))] else [])"
  by (simp add: episode_spans_def episode_ends_snoc zip_shift_snoc)

lemma episode_spans_le: "(a, b) \<in> set (episode_spans ds) \<Longrightarrow> b \<le> length ds"
  unfolding episode_spans_def by (auto dest!: set_zip_rightD episode_ends_le)

lemma last_end_le: "last (0 # episode_ends ds) \<le> length ds"
proof (cases "episode_ends ds = []")
  case True then show ?thesis by simp
next
  case False
  then have "last (episode_ends ds) \<in> set (episode_ends ds)" by simp
  then show ?thesis using False episode_ends_le by auto
qed

lemma completed_lens_snoc:
  "completed_lens (ds @ [d]) =
     completed_lens ds @ (if d then [Suc (length ds) - last (0 # episode_ends ds)] else [])"
  by (simp add: completed_lens_def episode_spans_snoc)

lemma completed_rets_snoc:
  assumes "length rs = length ds"
  shows "completed_rets (rs @ [r]) (ds @ [d]) =
     completed_rets rs ds
       @ (if d then [sum_list (drop (last (0 # episode_ends ds)) rs) + r] else [])"
proof -
  have old: "map (\<lambda>(first, end). sum_list (take (end - first) (drop first (rs @ [r]))))
               (episode_spans ds) = completed_rets rs ds"
    unfolding completed_rets_def
  proof (rule map_cong[OF refl], clarify)
    fix a b assume "(a, b) \<in> set (episode_spans ds)"
    then have "b \<le> length rs" using episode_spans_le assms by fastforce
    then show "sum_list (take (b - a) (drop a (rs @ [r]))) = sum_list (take (b - a) (drop a rs))"
      by simp
  qed
  have start: "last (0 # episode_ends ds) \<le> length rs"
    using last_end_le[of ds] assms by simp
  have new: "sum_list (take (Suc (length ds) - last (0 # episode_ends ds))
                 (drop (last (0 # episode_ends ds)) (rs @ [r])))
             = sum_list (drop (last (0 # episode_ends ds)) rs) + r"
    using start assms by simp
  show ?thesis
    using old new by (simp add: completed_rets_def episode_spans_snoc)
qed

lemma collect_body_fields:
  assumes "collect_body E s = Inr s'"
  shows "\<exists>batch w1 c0 nxt reward done w2.
      compute_action E [obs s] (world s) = (batch, w1)
      \<and> batch \<noteq> []
      \<and> (case env_action_space E of
            Box lo hi \<Rightarrow> (\<exists>cs. np_clip batch lo hi = Inr (c0 # cs))
          | Discrete k \<Rightarrow> c0 = hd batch)
      \<and> env_step E c0 w1 = ((nxt, reward, done), w2)
      \<and> (obs s', world s') = (if done then env_reset E w2 else (nxt, w2))
      \<and> loop_worlds s' = loop_worlds s @ [world s]
      \<and> observations s' = observations s @ [obs s]
      \<and> next_observations s' = next_observations s @ [nxt]
      \<and> rewards s' = rewards s @ [reward]
      \<and> dones s' = dones s @ [done]
      \<and> actions s' = actions s @ [hd batch]
      \<and> policy_outputs s' = policy_outputs s @ [batch]
      \<and> env_inputs s' = env_inputs s @ [c0]
      \<and> ep_rets s' = ep_rets s @ (if done then [cur_ep_ret s + reward] else [])
      \<and> ep_lens s' = ep_lens s @ (if done then [current_ep_len s + 1] else [])
      \<and> cur_ep_ret s' = (if done then 0 else cur_ep_ret s + reward)
      \<and> current_ep_len s' = (if done then 0 else current_ep_len s + 1)"
proof -
  obtain batch w1 where ca: "compute_action E [obs s] (world s) = (batch, w1)"
    by (cases "compute_action E [obs s] (world s)")
  let ?cl = "case env_action_space E of
               Box lo hi \<Rightarrow> np_clip batch lo hi
             | Discrete k \<Rightarrow> Inr batch"
  from assms ca obtain clipped where cl: "?cl = Inr clipped"
    by (cases ?cl) (simp_all add: collect_body_def)
  from assms ca cl obtain c0 cs where c: "clipped = c0 # cs"
    by (cases clipped) (simp_all add: collect_body_def)
  obtain nxt reward fin w2 where st: "env_step E c0 w1 = ((nxt, reward, fin), w2)"
    by (metis surj_pair)
  from assms ca cl c st obtain a0 as where b: "batch = a0 # as"
    by (cases batch) (auto simp: collect_body_def split: space.splits)
  obtain ob w3 where rs: "env_reset E w2 = (ob, w3)"
    by (cases "env_reset E w2")
  have clip0: "case env_action_space E of
            Box lo hi \<Rightarrow> (\<exists>cs. np_clip batch lo hi = Inr (c0 # cs))
          | Discrete k \<Rightarrow> c0 = hd batch"
    using cl c b by (cases "env_action_space E") auto
  have s': "s' = (let s1 = s\<lparr>observations := observations s @ [obs s],
                             next_observations := next_observations s @ [nxt],
                             actions := actions s @ [a0],
                             rewards := rewards s @ [reward],
                             dones := dones s @ [fin],
                             obs := nxt,
                             cur_ep_ret := cur_ep_ret s + reward,
                             current_ep_len := current_ep_len s + 1,
                             world := w2,
                             loop_worlds := loop_worlds s @ [world s],
                             policy_outputs := policy_outputs s @ [batch],
                             env_inputs := env_inputs s @ [c0]\<rparr>
                  in if fin
                     then s1\<lparr>ep_rets := ep_rets s1 @ [cur_ep_ret s1],
                             ep_lens := ep_lens s1 @ [current_ep_len s1],
                             cur_ep_ret := 0, current_ep_len := 0, obs := ob, world := w3\<rparr>
                     else s1)"
    using assms ca cl c st rs unfolding b collect_body_def by (auto simp: Let_def)
  have "compute_action E [obs s] (world s) = (batch, w1)
      \<and> batch \<noteq> []
      \<and> (case env_action_space E of
            Box lo hi \<Rightarrow> (\<exists>cs. np_clip batch lo hi = Inr (c0 # cs))
          | Discrete k \<Rightarrow> c0 = hd batch)
      \<and> env_step E c0 w1 = ((nxt, reward, fin), w2)
      \<and> (obs s', world s') = (if fin then env_reset E w2 else (nxt, w2))
      \<and> loop_worlds s' = loop_worlds s @ [world s]
      \<and> observations s' = observations s @ [obs s]
      \<and> next_observations s' = next_observations s @ [nxt]
      \<and> rewards s' = rewards s @ [reward]
      \<and> dones s' = dones s @ [fin]
      \<and> actions s' = actions s @ [hd batch]
      \<and> policy_outputs s' = policy_outputs s @ [batch]
      \<and> env_inputs s' = env_inputs s @ [c0]
      \<and> ep_rets s' = ep_rets s @ (if fin then [cur_ep_ret s + reward] else [])
      \<and> ep_lens s' = ep_lens s @ (if fin then [current_ep_len s + 1] else [])
      \<and> cur_ep_ret s' = (if fin then 0 else cur_ep_ret s + reward)
      \<and> current_ep_len s' = (if fin then 0 else current_ep_len s + 1)"
    using ca b clip0 st rs by (simp add: s' Let_def)
  then show ?thesis by blast
qed

lemma collect_body_inv:
  assumes "collect_inv s" and "collect_body E s = Inr s'"
  shows "collect_inv s' \<and> length (observations s') = Suc (length (observations s))"
proof -
  have start: "last (0 # episode_ends (dones s)) \<le> length (dones s)"
    by (rule last_end_le)
  have lr: "length (rewards s) = length (dones s)" using assms(1) by (simp add: collect_inv_def)
  from collect_body_fields[OF assms(2)] obtain nxt reward fin a0 where
    f: "observations s' = observations s @ [obs s]"
      "next_observations s' = next_observations s @ [nxt]"
      "rewards s' = rewards s @ [reward]"
      "dones s' = dones s @ [fin]"
      "actions s' = actions s @ [a0]"
      "ep_rets s' = ep_rets s @ (if fin then [cur_ep_ret s + reward] else [])"
      "ep_lens s' = ep_lens s @ (if fin then [current_ep_len s + 1] else [])"
      "cur_ep_ret s' = (if fin then 0 else cur_ep_ret s + reward)"
      "current_ep_len s' = (if fin then 0 else current_ep_len s + 1)"
    by blast
  show ?thesis
    using assms(1) start
    by (auto simp: collect_inv_def f completed_lens_snoc completed_rets_snoc[OF lr]
          episode_ends_snoc Suc_diff_le)
qed

lemma collect_loop_invariant:
  assumes "collect_loop E n s = Inr s'" and "P s"
    and "\<And>s s'. P s \<Longrightarrow> collect_body E s = Inr s' \<Longrightarrow> P s'"
  shows "P s'"
  using assms
proof (induction E n s rule: collect_loop.induct)
  case (1 E n s)
  show ?case
  proof (cases "int (length (observations s)) < n")
    case True
    with "1.prems"(1) obtain s1 where
      b: "collect_body E s = Inr s1" and l: "collect_loop E n s1 = Inr s'"
      by (subst (asm) collect_loop.simps) (auto split: sum.splits)
    have "P s1" using "1.prems"(3)[OF "1.prems"(2) b] .
    from "1.IH"[OF True b l this "1.prems"(3)] show ?thesis .
  next
    case False
    with "1.prems" show ?thesis by (subst (asm) collect_loop.simps) simp
  qed
qed

lemma np_clip_rows:
  "np_clip batch lo hi = Inr c \<Longrightarrow>
     length c = length batch \<and> (\<forall>i<length batch. np_clip_row (batch ! i) lo hi = Inr (c ! i))"
proof (induction batch arbitrary: c)
  case Nil
  then show ?case by simp
next
  case (Cons row rows)
  from Cons.prems obtain r rs where
    r: "np_clip_row row lo hi = Inr r" and rs: "np_clip rows lo hi = Inr rs" and c: "c = r # rs"
    by (auto split: sum.splits)
  from Cons.IH[OF rs] show ?case using r c by (auto simp: nth_Cons split: nat.splits)
qed

lemma collect_body_total:
  assumes "action_batch_ok (env_action_space E) (fst (compute_action E [obs s] (world s)))"
  shows "\<exists>s'. collect_body E s = Inr s'"
proof -
  obtain batch w1 where ca: "compute_action E [obs s] (world s) = (batch, w1)"
    by (cases "compute_action E [obs s] (world s)")
  from assms ca obtain a0 as where b: "batch = a0 # as"
    by (cases batch) (simp_all add: action_batch_ok_def)
  let ?cl = "case env_action_space E of
               Box lo hi \<Rightarrow> np_clip (a0 # as) lo hi
             | Discrete k \<Rightarrow> Inr (a0 # as)"
  have "\<exists>c0 cs. ?cl = Inr (c0 # cs)"
  proof (cases "env_action_space E")
    case (Box lo hi)
    with assms ca b obtain c where c: "np_clip (a0 # as) lo hi = Inr c"
      by (auto simp: action_batch_ok_def split: sum.splits)
    from np_clip_rows[OF c] have "length c = Suc (length as)" by simp
    then obtain c0 cs where "c = c0 # cs" by (cases c) simp_all
    with c Box show ?thesis by simp
  next
    case (Discrete k)
    then show ?thesis by simp
  qed
  then obtain c0 cs where cl: "?cl = Inr (c0 # cs)" by blast
  obtain nxt reward fin w2 where st: "env_step E c0 w1 = ((nxt, reward, fin), w2)"
    by (metis surj_pair)
  show ?thesis
    using ca cl st unfolding b collect_body_def by (simp add: Let_def)
qed

lemma collect_loop_total:
  assumes ok: "\<forall>ob w. action_batch_ok (env_action_space E) (fst (compute_action E [ob] w))"
  shows "int (length (observations s)) \<le> n \<Longrightarrow>
     \<exists>s'. collect_loop E n s = Inr s' \<and> int (length (observations s')) = n"
proof (induction "nat (n - int (length (observations s)))" arbitrary: s)
  case 0
  then have "\<not> int (length (observations s)) < n" and "int (length (observations s)) = n"
    by simp_all
  then show ?case by (subst collect_loop.simps) simp
next
  case (Suc k)
  then have less: "int (length (observations s)) < n" by simp
  from collect_body_total[of E s] ok obtain s1 where b: "collect_body E s = Inr s1" by blast
  from collect_body_fields[OF b] have len: "length (observations s1) = Suc (length (observations s))"
    by auto
  have "k = nat (n - int (length (observations s1)))" using Suc.hyps(2) len by simp
  moreover have "int (length (observations s1)) \<le> n" using less len by simp
  ultimately obtain s' where "collect_loop E n s1 = Inr s'" "int (length (observations s')) = n"
    using Suc.hyps(1) by blast
  then show ?case using less b by (subst collect_loop.simps) simp
qed

lemma toy_run:
  "collect_samples toy_sampler 3 0 =
     Inr (\<lparr>observations = [[0], [1], [0]],
           next_observations = [[1], [2], [1]],
           rewards = [1, 1, 1],
           dones = [False, True, False],
           actions = [[5], [5], [5]],
           ep_rets = [2], ep_lens = [2], total_timestep = 3\<rparr>,
          \<lparr>observations = [[0], [1], [0]],
           next_observations = [[1], [2], [1]],
           rewards = [1, 1, 1],
           dones = [False, True, False],
           actions = [[5], [5], [5]],
           ep_rets = [2], ep_lens = [2],
           cur_ep_ret = 1, current_ep_len = 1, obs = [1], world = 1,
           loop_worlds = [0, 1, 0],
           policy_outputs = [[[5]], [[5]], [[5]]],
           env_inputs = [[1], [1], [1]]\<rparr>)"
  by (simp add: collect_samples_def toy_sampler_def collect_body_def np_clip_row_def
      broadcast_len_def broadcast_to_def Let_def collect_loop.simps)

lemma collect_inv_init:
  "collect_inv \<lparr>observations = [], next_observations = [], rewards = [], dones = [],
     actions = [], ep_rets = [], ep_lens = [],
     cur_ep_ret = 0, current_ep_len = 0, obs = ob, world = w,
     loop_worlds = [], policy_outputs = [], env_inputs = []\<rparr>"
  by (simp add: collect_inv_def completed_lens_def completed_rets_def episode_spans_def
      episode_ends_def)

lemma length_episode_spans: "length (episode_spans ds) = length (filter id ds)"
proof -
  have "length (filter (\<lambda>i. ds ! i) [0..<length ds]) = length (filter id ds)"
  proof (induction ds rule: rev_induct)
    case Nil
    then show ?case by simp
  next
    case (snoc d ds)
    have "filter (\<lambda>i. (ds @ [d]) ! i) [0..<length ds] = filter (\<lambda>i. ds ! i) [0..<length ds]"
      by (intro filter_cong) (auto simp: nth_append)
    then show ?case using snoc by (simp add: nth_append)
  qed
  then show ?thesis by (simp add: episode_spans_def episode_ends_def)
qed

lemma sum_completed_lens: "sum_list (completed_lens ds) = last (0 # episode_ends ds)"
proof (induction ds rule: rev_induct)
  case Nil
  then show ?case by (simp add: completed_lens_def episode_spans_def episode_ends_def)
next
  case (snoc d ds)
  have "last (0 # episode_ends ds) \<le> length ds" by (rule last_end_le)
  then show ?case using snoc by (auto simp: completed_lens_snoc episode_ends_snoc)
qed

lemma last_end_truncated:
  assumes "ds \<noteq> []" and "\<not> last ds"
  shows "last (0 # episode_ends ds) < length ds"
proof -
  from assms obtain ds' where ds: "ds = ds' @ [False]"
    by (metis append_butlast_last_id)
  have "last (0 # episode_ends ds') \<le> length ds'" by (rule last_end_le)
  then show ?thesis unfolding ds by (auto simp: episode_ends_snoc)
qed

text \<open>
  Claim C5. For every \<open>n \<ge> 1\<close> and every policy whose batches the loop body
  accepts, \<open>_collect_samples(n)\<close> returns, all five arrays have exactly \<open>n\<close>
  entries and \<open>total_timestep = n\<close>, wherever episodes end. \<open>ep_lens\<close> and
  \<open>ep_rets\<close> hold one entry per step whose \<open>done\<close> flag is set, in order: the
  length and the summed reward of the episode that ends there. The steps after the last
  set flag are counted in no entry, so an episode cut off by the budget adds none.
\<close>

theorem collect_returns_exactly_n:
  assumes "1 \<le> n"
    and "\<forall>ob w. action_batch_ok (env_action_space E) (fst (compute_action E [ob] w))"
  shows "\<exists>seg s. collect_samples E n w0 = Inr (seg, s)
      \<and> int (length (observations seg)) = n
      \<and> int (length (next_observations seg)) = n
      \<and> int (length (rewards seg)) = n
      \<and> int (length (dones seg)) = n
      \<and> int (length (actions seg)) = n
      \<and> int (total_timestep seg) = n
      \<and> ep_lens seg = completed_lens (dones seg)
      \<and> ep_rets seg = completed_rets (rewards seg) (dones seg)
      \<and> length (ep_lens seg) = length (filter id (dones seg))
      \<and> length (ep_rets seg) = length (filter id (dones seg))
      \<and> sum_list (ep_lens seg) = last (0 # episode_ends (dones seg))
      \<and> (\<not> last (dones seg) \<longrightarrow> sum_list (ep_lens seg) < length (dones seg))"
proof -
  obtain ob w1 where rs: "env_reset E w0 = (ob, w1)" by (cases "env_reset E w0")
  let ?s0 = "\<lparr>observations = [], next_observations = [], rewards = [], dones = [],
     actions = [], ep_rets = [], ep_lens = [],
     cur_ep_ret = 0, current_ep_len = 0, obs = ob, world = w1,
     loop_worlds = [], policy_outputs = [], env_inputs = []\<rparr>"
  have "int (length (observations ?s0)) \<le> n" using assms(1) by simp
  from collect_loop_total[OF assms(2) this] obtain s where
    loop: "collect_loop E n ?s0 = Inr s" and len: "int (length (observations s)) = n"
    by blast
  have inv: "collect_inv s"
    by (rule collect_loop_invariant[where P = collect_inv, OF loop collect_inv_init])
      (simp add: collect_body_inv)
  let ?seg = "\<lparr>observations = observations s,
                     next_observations = next_observations s,
                     rewards = rewards s,
                     dones = dones s,
                     actions = actions s,
                     ep_rets = ep_rets s,
                     ep_lens = ep_lens s,
                     total_timestep = length (observations s)\<rparr>"
  have run: "collect_samples E n w0 = Inr (?seg, s)"
    using rs loop by (simp add: collect_samples_def)
  have lens: "length (next_observations s) = length (observations s)"
    "length (rewards s) = length (observations s)"
    "length (dones s) = length (observations s)"
    "length (actions s) = length (observations s)"
    and el: "ep_lens s = completed_lens (dones s)"
    and er: "ep_rets s = completed_rets (rewards s) (dones s)"
    using inv by (simp_all add: collect_inv_def)
  have cnt: "length (completed_lens (dones s)) = length (filter id (dones s))"
    "length (completed_rets (rewards s) (dones s)) = length (filter id (dones s))"
    by (simp_all add: completed_lens_def completed_rets_def length_episode_spans)
  have ne: "dones s \<noteq> []" using len lens assms(1) by auto
  have trunc: "\<not> last (dones s) \<longrightarrow> sum_list (completed_lens (dones s)) < length (dones s)"
    using last_end_truncated[OF ne] by (simp add: sum_completed_lens)
  have "int (length (observations ?seg)) = n
      \<and> int (length (next_observations ?seg)) = n
      \<and> int (length (rewards ?seg)) = n
      \<and> int (length (dones ?seg)) = n
      \<and> int (length (actions ?seg)) = n
      \<and> int (total_timestep ?seg) = n
      \<and> ep_lens ?seg = completed_lens (dones ?seg)
      \<and> ep_rets ?seg = completed_rets (rewards ?seg) (dones ?seg)
      \<and> length (ep_lens ?seg) = length (filter id (dones ?seg))
      \<and> length (ep_rets ?seg) = length (filter id (dones ?seg))
      \<and> sum_list (ep_lens ?seg) = last (0 # episode_ends (dones ?seg))
      \<and> (\<not> last (dones ?seg) \<longrightarrow> sum_list (ep_lens ?seg) < length (dones ?seg))"
    using len lens el er cnt trunc by (simp add: sum_completed_lens)
  with run show ?thesis by blast
qed

theorem collect_returns_exactly_n_witness:
  "(1::int) \<le> 3
   \<and> (\<forall>ob w. action_batch_ok (env_action_space toy_sampler)
                (fst (compute_action toy_sampler [ob] w)))
   \<and> (\<exists>seg s. collect_samples toy_sampler 3 0 = Inr (seg, s)
         \<and> length (observations seg) = 3
         \<and> total_timestep seg = 3
         \<and> dones seg = [False, True, False]
         \<and> ep_lens seg = [2]
         \<and> ep_rets seg = [2]
         \<and> ep_lens seg = completed_lens (dones seg)
         \<and> ep_rets seg = completed_rets (rewards seg) (dones seg)
         \<and> sum_list (ep_lens seg) < length (dones seg))"
proof -
  have h1: "(1::int) \<le> 3" by simp
  have h2: "\<forall>ob w. action_batch_ok (env_action_space toy_sampler)
                (fst (compute_action toy_sampler [ob] w))"
    by (simp add: toy_sampler_def action_batch_ok_def np_clip_row_def broadcast_len_def
        broadcast_to_def)
  from collect_returns_exactly_n[OF h1 h2, of 0] obtain seg s where
    run: "collect_samples toy_sampler 3 0 = Inr (seg, s)"
    and lens: "ep_lens seg = completed_lens (dones seg)"
    and rets: "ep_rets seg = completed_rets (rewards seg) (dones seg)"
    and trunc: "\<not> last (dones seg) \<longrightarrow> sum_list (ep_lens seg) < length (dones seg)"
    by blast
  from run toy_run have seg:
    "seg = \<lparr>observations = [[0], [1], [0]],
           next_observations = [[1], [2], [1]],
           rewards = [1, 1, 1],
           dones = [False, True, False],
           actions = [[5], [5], [5]],
           ep_rets = [2], ep_lens = [2], total_timestep = 3\<rparr>"
    by simp
  have "length (observations seg) = 3" "total_timestep seg = 3"
    "dones seg = [False, True, False]" "ep_lens seg = [2]" "ep_rets seg = [2]"
    by (simp_all add: seg)
  moreover from this trunc have "sum_list (ep_lens seg) < length (dones seg)" by simp
  ultimately show ?thesis using h1 h2 run lens rets by blast
qed

lemma calls_inv_init:
  "env_reset E w0 = (ob, w) \<Longrightarrow>
   calls_inv E w0 \<lparr>observations = [], next_observations = [], rewards = [], dones = [],
     actions = [], ep_rets = [], ep_lens = [],
     cur_ep_ret = 0, current_ep_len = 0, obs = ob, world = w,
     loop_worlds = [], policy_outputs = [], env_inputs = []\<rparr>"
  by (simp add: calls_inv_def)

lemma collect_body_calls_inv:
  assumes inv: "calls_inv E w0 s" and body: "collect_body E s = Inr s'"
  shows "calls_inv E w0 s'"
proof -
  let ?n = "length (actions s)"
  from collect_body_fields[OF body] obtain batch w1 c0 nxt reward fin w2 where
    ca: "compute_action E [obs s] (world s) = (batch, w1)"
    and ne: "batch \<noteq> []"
    and clip: "case env_action_space E of
            Box lo hi \<Rightarrow> (\<exists>cs. np_clip batch lo hi = Inr (c0 # cs))
          | Discrete k \<Rightarrow> c0 = hd batch"
    and st: "env_step E c0 w1 = ((nxt, reward, fin), w2)"
    and nx: "(obs s', world s') = (if fin then env_reset E w2 else (nxt, w2))"
    and f: "loop_worlds s' = loop_worlds s @ [world s]"
      "observations s' = observations s @ [obs s]"
      "next_observations s' = next_observations s @ [nxt]"
      "rewards s' = rewards s @ [reward]"
      "dones s' = dones s @ [fin]"
      "actions s' = actions s @ [hd batch]"
      "policy_outputs s' = policy_outputs s @ [batch]"
      "env_inputs s' = env_inputs s @ [c0]"
    by blast
  from inv have len: "length (observations s) = ?n" "length (next_observations s) = ?n"
    "length (rewards s) = ?n" "length (dones s) = ?n" "length (loop_worlds s) = ?n"
    "length (policy_outputs s) = ?n" "length (env_inputs s) = ?n"
    and first: "((observations s @ [obs s]) ! 0, (loop_worlds s @ [world s]) ! 0) = env_reset E w0"
    and old: "\<forall>i<?n. \<exists>w1 w2.
              compute_action E [observations s ! i] (loop_worlds s ! i)
                = (policy_outputs s ! i, w1)
              \<and> policy_outputs s ! i \<noteq> []
              \<and> actions s ! i = hd (policy_outputs s ! i)
              \<and> (case env_action_space E of
                    Box lo hi \<Rightarrow> np_clip_row (actions s ! i) lo hi = Inr (env_inputs s ! i)
                  | Discrete k \<Rightarrow> env_inputs s ! i = actions s ! i)
              \<and> env_step E (env_inputs s ! i) w1
                    = ((next_observations s ! i, rewards s ! i, dones s ! i), w2)
              \<and> ((observations s @ [obs s]) ! Suc i, (loop_worlds s @ [world s]) ! Suc i)
                    = (if dones s ! i then env_reset E w2 else (next_observations s ! i, w2))"
    unfolding calls_inv_def by blast+
  have new_clip: "case env_action_space E of
                  Box lo hi \<Rightarrow> np_clip_row (hd batch) lo hi = Inr c0
                | Discrete k \<Rightarrow> c0 = hd batch"
  proof (cases "env_action_space E")
    case (Box lo hi)
    with clip obtain cs where c: "np_clip batch lo hi = Inr (c0 # cs)" by auto
    from np_clip_rows[OF c] ne have "np_clip_row (batch ! 0) lo hi = Inr ((c0 # cs) ! 0)"
      by (metis length_greater_0_conv)
    then show ?thesis using Box ne by (simp add: hd_conv_nth)
  next
    case (Discrete k)
    with clip show ?thesis by simp
  qed
  have first': "((observations s' @ [obs s']) ! 0, (loop_worlds s' @ [world s']) ! 0)
                  = env_reset E w0"
  proof -
    have "((observations s @ [obs s]) @ [obs s']) ! 0 = (observations s @ [obs s]) ! 0"
      by (rule nth_append_left) simp
    moreover have "((loop_worlds s @ [world s]) @ [world s']) ! 0 = (loop_worlds s @ [world s]) ! 0"
      by (rule nth_append_left) simp
    ultimately show ?thesis using first by (simp only: f append_assoc)
  qed
  have step': "\<exists>w1 w2.
              compute_action E [observations s' ! i] (loop_worlds s' ! i)
                = (policy_outputs s' ! i, w1)
              \<and> policy_outputs s' ! i \<noteq> []
              \<and> actions s' ! i = hd (policy_outputs s' ! i)
              \<and> (case env_action_space E of
                    Box lo hi \<Rightarrow> np_clip_row (actions s' ! i) lo hi = Inr (env_inputs s' ! i)
                  | Discrete k \<Rightarrow> env_inputs s' ! i = actions s' ! i)
              \<and> env_step E (env_inputs s' ! i) w1
                    = ((next_observations s' ! i, rewards s' ! i, dones s' ! i), w2)
              \<and> ((observations s' @ [obs s']) ! Suc i, (loop_worlds s' @ [world s']) ! Suc i)
                    = (if dones s' ! i then env_reset E w2 else (next_observations s' ! i, w2))"
    if i: "i < Suc ?n" for i
  proof (cases "i < ?n")
    case True
    from old True obtain v1 v2 where
      o: "compute_action E [observations s ! i] (loop_worlds s ! i)
                = (policy_outputs s ! i, v1)"
        "policy_outputs s ! i \<noteq> []"
        "actions s ! i = hd (policy_outputs s ! i)"
        "case env_action_space E of
                    Box lo hi \<Rightarrow> np_clip_row (actions s ! i) lo hi = Inr (env_inputs s ! i)
                  | Discrete k \<Rightarrow> env_inputs s ! i = actions s ! i"
        "env_step E (env_inputs s ! i) v1
                    = ((next_observations s ! i, rewards s ! i, dones s ! i), v2)"
        "((observations s @ [obs s]) ! Suc i, (loop_worlds s @ [world s]) ! Suc i)
                    = (if dones s ! i then env_reset E v2 else (next_observations s ! i, v2))"
      by blast
    have same: "observations s' ! i = observations s ! i"
      "loop_worlds s' ! i = loop_worlds s ! i"
      "policy_outputs s' ! i = policy_outputs s ! i"
      "actions s' ! i = actions s ! i"
      "env_inputs s' ! i = env_inputs s ! i"
      "next_observations s' ! i = next_observations s ! i"
      "rewards s' ! i = rewards s ! i"
      "dones s' ! i = dones s ! i"
      using True len by (simp_all add: f nth_append)
    have "((observations s @ [obs s]) @ [obs s']) ! Suc i = (observations s @ [obs s]) ! Suc i"
      using True len by (intro nth_append_left) simp
    moreover have "((loop_worlds s @ [world s]) @ [world s']) ! Suc i
                     = (loop_worlds s @ [world s]) ! Suc i"
      using True len by (intro nth_append_left) simp
    ultimately have same2:
      "(observations s' @ [obs s']) ! Suc i = (observations s @ [obs s]) ! Suc i"
      "(loop_worlds s' @ [world s']) ! Suc i = (loop_worlds s @ [world s]) ! Suc i"
      by (simp_all only: f append_assoc)
    show ?thesis
      unfolding same same2 using o by blast
  next
    case False
    with i have i: "i = ?n" by simp
    have at: "observations s' ! i = obs s"
      "loop_worlds s' ! i = world s"
      "policy_outputs s' ! i = batch"
      "actions s' ! i = hd batch"
      "env_inputs s' ! i = c0"
      "next_observations s' ! i = nxt"
      "rewards s' ! i = reward"
      "dones s' ! i = fin"
      "(observations s' @ [obs s']) ! Suc i = obs s'"
      "(loop_worlds s' @ [world s']) ! Suc i = world s'"
      using len by (simp_all add: f i nth_append)
    have nx': "(obs s', world s') = (if fin then env_reset E w2 else (nxt, w2))"
      by (rule nx)
    show ?thesis
      unfolding at using ca ne new_clip st nx' by blast
  qed
  show ?thesis
    unfolding calls_inv_def
    using len first' step' by (simp add: f)
qed

lemma broadcast_to_same: "length xs = d \<Longrightarrow> broadcast_to d xs = xs"
  by (auto simp: broadcast_to_def split: list.splits)

lemma np_clip_row_same_length:
  assumes "length row = length lo" and "length hi = length lo"
    and "np_clip_row row lo hi = Inr c"
  shows "length c = length lo
     \<and> (\<forall>j<length lo. c ! j = min (hi ! j) (max (row ! j) (lo ! j)))"
  using assms by (auto simp: np_clip_row_def broadcast_len_def broadcast_to_same)

lemma echo_run:
  "collect_samples echo_sampler 2 0 =
     Inr (\<lparr>observations = [[0], [1]],
           next_observations = [[1], [1]],
           rewards = [1, 1],
           dones = [False, False],
           actions = [[5], [5]],
           ep_rets = [], ep_lens = [], total_timestep = 2\<rparr>,
          \<lparr>observations = [[0], [1]],
           next_observations = [[1], [1]],
           rewards = [1, 1],
           dones = [False, False],
           actions = [[5], [5]],
           ep_rets = [], ep_lens = [],
           cur_ep_ret = 2, current_ep_len = 2, obs = [1], world = 2,
           loop_worlds = [0, 1],
           policy_outputs = [[[5]], [[5]]],
           env_inputs = [[1], [1]]\<rparr>)"
  by (simp add: collect_samples_def echo_sampler_def collect_body_def np_clip_row_def
      broadcast_len_def broadcast_to_def Let_def collect_loop.simps)

text \<open>
  Claim C10. With a \<open>Box\<close> action space, every collected step \<open>i\<close> is this:
  \<open>compute_action\<close> is called on the observation stored at \<open>i\<close> and returns a
  batch; \<open>actions[i]\<close> is row 0 of that batch, unclipped; \<open>env.step\<close> is called
  with \<open>c\<close>, row 0 of \<open>np.clip(batch, low, high)\<close>, in the world the policy call
  left, and what it returns are the next observation, reward and done flag stored at
  \<open>i\<close>; the next pass starts from that result, or from \<open>env.reset()\<close> after it
  when the flag is set. The first pass starts from \<open>env.reset()\<close>. Where the action
  and the bounds have one length, component \<open>j\<close> of \<open>c\<close> is
  \<open>min(high[j], max(action[j], low[j]))\<close>, which lies between the bounds when
  \<open>low[j] \<le> high[j]\<close>.
\<close>

theorem env_stepped_with_clipped_action:
  assumes "env_action_space E = Box lo hi"
    and "collect_samples E n w0 = Inr (seg, s)"
  shows "((observations seg @ [obs s]) ! 0, (loop_worlds s @ [world s]) ! 0) = env_reset E w0
     \<and> length (loop_worlds s) = length (actions seg)
     \<and> (\<forall>i<length (actions seg).
           \<exists>batch w1 c w2.
             compute_action E [observations seg ! i] (loop_worlds s ! i) = (batch, w1)
             \<and> actions seg ! i = hd batch
             \<and> np_clip_row (hd batch) lo hi = Inr c
             \<and> env_step E c w1
                   = ((next_observations seg ! i, rewards seg ! i, dones seg ! i), w2)
             \<and> ((observations seg @ [obs s]) ! Suc i, (loop_worlds s @ [world s]) ! Suc i)
                   = (if dones seg ! i then env_reset E w2
                      else (next_observations seg ! i, w2))
             \<and> policy_outputs s ! i = batch
             \<and> env_inputs s ! i = c
             \<and> (length (hd batch) = length lo \<and> length hi = length lo \<longrightarrow>
                  length c = length lo
                  \<and> (\<forall>j<length lo.
                        c ! j = min (hi ! j) (max (hd batch ! j) (lo ! j))
                        \<and> (lo ! j \<le> hi ! j \<longrightarrow> lo ! j \<le> c ! j \<and> c ! j \<le> hi ! j))))"
proof -
  obtain ob w1 where rs: "env_reset E w0 = (ob, w1)" by (cases "env_reset E w0")
  let ?s0 = "\<lparr>observations = [], next_observations = [], rewards = [], dones = [],
     actions = [], ep_rets = [], ep_lens = [],
     cur_ep_ret = 0, current_ep_len = 0, obs = ob, world = w1,
     loop_worlds = [], policy_outputs = [], env_inputs = []\<rparr>"
  from assms(2) rs have loop: "collect_loop E n ?s0 = Inr s"
    and seg: "actions seg = actions s" "observations seg = observations s"
      "next_observations seg = next_observations s" "rewards seg = rewards s"
      "dones seg = dones s"
    by (auto simp: collect_samples_def split: sum.splits)
  have "calls_inv E w0 s"
    by (rule collect_loop_invariant[where P = "calls_inv E w0", OF loop calls_inv_init[OF rs]])
      (rule collect_body_calls_inv)
  then have first: "((observations s @ [obs s]) ! 0, (loop_worlds s @ [world s]) ! 0)
                      = env_reset E w0"
    and lw: "length (loop_worlds s) = length (actions s)"
    and steps: "\<forall>i<length (actions s).
            \<exists>w1 w2.
              compute_action E [observations s ! i] (loop_worlds s ! i)
                = (policy_outputs s ! i, w1)
              \<and> policy_outputs s ! i \<noteq> []
              \<and> actions s ! i = hd (policy_outputs s ! i)
              \<and> np_clip_row (actions s ! i) lo hi = Inr (env_inputs s ! i)
              \<and> env_step E (env_inputs s ! i) w1
                    = ((next_observations s ! i, rewards s ! i, dones s ! i), w2)
              \<and> ((observations s @ [obs s]) ! Suc i, (loop_worlds s @ [world s]) ! Suc i)
                    = (if dones s ! i then env_reset E w2 else (next_observations s ! i, w2))"
    unfolding calls_inv_def assms(1) space.case by blast+
  have main: "\<exists>batch w1 c w2.
             compute_action E [observations s ! i] (loop_worlds s ! i) = (batch, w1)
             \<and> actions s ! i = hd batch
             \<and> np_clip_row (hd batch) lo hi = Inr c
             \<and> env_step E c w1
                   = ((next_observations s ! i, rewards s ! i, dones s ! i), w2)
             \<and> ((observations s @ [obs s]) ! Suc i, (loop_worlds s @ [world s]) ! Suc i)
                   = (if dones s ! i then env_reset E w2
                      else (next_observations s ! i, w2))
             \<and> policy_outputs s ! i = batch
             \<and> env_inputs s ! i = c
             \<and> (length (hd batch) = length lo \<and> length hi = length lo \<longrightarrow>
                  length c = length lo
                  \<and> (\<forall>j<length lo.
                        c ! j = min (hi ! j) (max (hd batch ! j) (lo ! j))
                        \<and> (lo ! j \<le> hi ! j \<longrightarrow> lo ! j \<le> c ! j \<and> c ! j \<le> hi ! j)))"
    if i: "i < length (actions s)" for i
  proof -
    from steps i obtain v1 v2 where
      a: "compute_action E [observations s ! i] (loop_worlds s ! i) = (policy_outputs s ! i, v1)"
      and b: "actions s ! i = hd (policy_outputs s ! i)"
      and c: "np_clip_row (actions s ! i) lo hi = Inr (env_inputs s ! i)"
      and d: "env_step E (env_inputs s ! i) v1
                    = ((next_observations s ! i, rewards s ! i, dones s ! i), v2)"
      and e: "((observations s @ [obs s]) ! Suc i, (loop_worlds s @ [world s]) ! Suc i)
                    = (if dones s ! i then env_reset E v2 else (next_observations s ! i, v2))"
      by blast
    have c': "np_clip_row (hd (policy_outputs s ! i)) lo hi = Inr (env_inputs s ! i)"
      using c b by simp
    have el: "length (hd (policy_outputs s ! i)) = length lo \<and> length hi = length lo \<longrightarrow>
                  length (env_inputs s ! i) = length lo
                  \<and> (\<forall>j<length lo.
                        env_inputs s ! i ! j
                          = min (hi ! j) (max (hd (policy_outputs s ! i) ! j) (lo ! j))
                        \<and> (lo ! j \<le> hi ! j \<longrightarrow>
                             lo ! j \<le> env_inputs s ! i ! j \<and> env_inputs s ! i ! j \<le> hi ! j))"
    proof (intro impI, elim conjE)
      assume l1: "length (hd (policy_outputs s ! i)) = length lo" and l2: "length hi = length lo"
      from np_clip_row_same_length[OF l1 l2 c']
      show "length (env_inputs s ! i) = length lo
                  \<and> (\<forall>j<length lo.
                        env_inputs s ! i ! j
                          = min (hi ! j) (max (hd (policy_outputs s ! i) ! j) (lo ! j))
                        \<and> (lo ! j \<le> hi ! j \<longrightarrow>
                             lo ! j \<le> env_inputs s ! i ! j \<and> env_inputs s ! i ! j \<le> hi ! j))"
        by auto
    qed
    show ?thesis
      using a b c' d e el by blast
  qed
  show ?thesis
    unfolding seg using first lw main by blast
qed

theorem env_stepped_with_clipped_action_witness:
  "env_action_space echo_sampler = Box [-1] [1]
   \<and> (\<exists>seg s. collect_samples echo_sampler 2 0 = Inr (seg, s)
         \<and> actions seg = [[5], [5]]
         \<and> next_observations seg = [[1], [1]]
         \<and> (\<exists>batch w1 c w2.
               compute_action echo_sampler [observations seg ! 0] (loop_worlds s ! 0)
                 = (batch, w1)
               \<and> batch = [[5]]
               \<and> actions seg ! 0 = hd batch
               \<and> np_clip_row (hd batch) [-1] [1] = Inr c
               \<and> c = [1]
               \<and> env_step echo_sampler c w1
                     = ((next_observations seg ! 0, rewards seg ! 0, dones seg ! 0), w2)))"
proof -
  have h1: "env_action_space echo_sampler = Box [-1] [1]" by (simp add: echo_sampler_def)
  let ?seg = "\<lparr>observations = [[0], [1]],
           next_observations = [[1], [1]],
           rewards = [1, 1],
           dones = [False, False],
           actions = [[5], [5::real]],
           ep_rets = [], ep_lens = [], total_timestep = 2\<rparr>"
  let ?s = "\<lparr>observations = [[0], [1]],
           next_observations = [[1], [1]],
           rewards = [1, 1],
           dones = [False, False],
           actions = [[5], [5::real]],
           ep_rets = [], ep_lens = [],
           cur_ep_ret = 2, current_ep_len = 2, obs = [1], world = 2::nat,
           loop_worlds = [0, 1],
           policy_outputs = [[[5]], [[5]]],
           env_inputs = [[1], [1]]\<rparr>"
  have i0: "0 < length (actions ?seg)" by simp
  from env_stepped_with_clipped_action[OF h1 echo_run, THEN conjunct2, THEN conjunct2,
      THEN spec, of 0] i0
  obtain batch w1 c w2 where
    a: "compute_action echo_sampler [observations ?seg ! 0] (loop_worlds ?s ! 0) = (batch, w1)"
    and b: "actions ?seg ! 0 = hd batch"
    and c: "np_clip_row (hd batch) [-1] [1] = Inr c"
    and d: "env_step echo_sampler c w1
              = ((next_observations ?seg ! 0, rewards ?seg ! 0, dones ?seg ! 0), w2)"
    by blast
  from a have batch: "batch = [[5]]" by (simp add: echo_sampler_def)
  from c batch have cv: "c = [1]"
    by (simp add: np_clip_row_def broadcast_len_def broadcast_to_def)
  have "\<exists>batch w1 c w2.
               compute_action echo_sampler [observations ?seg ! 0] (loop_worlds ?s ! 0)
                 = (batch, w1)
               \<and> batch = [[5]]
               \<and> actions ?seg ! 0 = hd batch
               \<and> np_clip_row (hd batch) [-1] [1] = Inr c
               \<and> c = [1]
               \<and> env_step echo_sampler c w1
                     = ((next_observations ?seg ! 0, rewards ?seg ! 0, dones ?seg ! 0), w2)"
    using a batch b c cv d by blast
  then show ?thesis
    using h1 echo_run by (intro conjI exI[of _ ?seg] exI[of _ ?s]) simp_all
qed

section \<open>Properties of the logging step\<close>

lemma fold_losses_other:
  "k \<notin> fst ` set kvs \<Longrightarrow>
     fold (\<lambda>(loss_name, loss_val) stats. stats(loss_name \<mapsto> Num loss_val)) kvs stats k = stats k"
  by (induction kvs arbitrary: stats) auto

lemma training_stats_returns:
  "training_stats self rews lens d sps ev ''min_return'' = Some (Num (py_min rews 0))"
  "training_stats self rews lens d sps ev ''max_return'' = Some (Num (py_max rews 0))"
  "training_stats self rews lens d sps ev ''mean_return'' = Some (np_mean rews)"
  by (simp_all add: training_stats_def)

text \<open>
  Claim C9, as stated, fails: with no completed episode the logging step returns, and
  \<open>min_return\<close> and \<open>max_return\<close> are 0, but \<open>mean_return\<close> is
  \<open>np.mean([])\<close>, which is \<open>nan\<close> and not 0.
\<close>

theorem no_episode_mean_return_counterexample:
  "\<not> (\<exists>stats self'.
        log_training (\<lambda>ypred y. NaN) fresh_algorithm 0 1 1 no_episode_segment [] [] []
          = Inr (stats, self')
        \<and> stats ''min_return'' = Some (Num 0)
        \<and> stats ''max_return'' = Some (Num 0)
        \<and> stats ''mean_return'' = Some (Num 0))"
proof -
  have "log_training (\<lambda>ypred y. NaN) fresh_algorithm 0 1 1 no_episode_segment [] [] []
      = Inr (training_stats (update_counters fresh_algorithm no_episode_segment) [] [] 1
               (real (timesteps_so_far (update_counters fresh_algorithm no_episode_segment)) / 1)
               NaN,
             update_counters fresh_algorithm no_episode_segment)"
    by (simp add: log_training_def Let_def fresh_algorithm_def no_episode_segment_def)
  then show ?thesis
    by (auto simp: training_stats_returns np_mean_def)
qed

text \<open>
  Claim C9, amended. When the completed-episode lists of the segment are empty, the
  elapsed time read for \<open>steps_per_second\<close> is not zero and no loss is written
  under one of the three keys, the logging step does not raise and records 0 for
  \<open>min_return\<close>, 0 for \<open>max_return\<close> and \<open>nan\<close> for \<open>mean_return\<close>.
\<close>

theorem no_episode_statistics:
  assumes "ep_rets seg = []" and "ep_lens seg = []"
    and "now2 \<noteq> t_start"
    and "''min_return'' \<notin> fst ` set (zip (loss_names self) mean_losses)"
    and "''max_return'' \<notin> fst ` set (zip (loss_names self) mean_losses)"
    and "''mean_return'' \<notin> fst ` set (zip (loss_names self) mean_losses)"
  shows "\<exists>stats self'.
      log_training explained_variance self t_start now1 now2 seg mean_losses vpredbefore tdlamret_arr
        = Inr (stats, self')
      \<and> stats ''min_return'' = Some (Num 0)
      \<and> stats ''max_return'' = Some (Num 0)
      \<and> stats ''mean_return'' = Some NaN"
proof -
  let ?self1 = "update_counters self seg"
  let ?base = "training_stats ?self1 [] [] (now1 - t_start)
                     (real (timesteps_so_far ?self1) / (now2 - t_start))
                     (explained_variance vpredbefore tdlamret_arr)"
  let ?stats = "fold (\<lambda>(loss_name, loss_val) stats. stats(loss_name \<mapsto> Num loss_val))
                  (zip (loss_names self) mean_losses) ?base"
  have run: "log_training explained_variance self t_start now1 now2 seg mean_losses
               vpredbefore tdlamret_arr = Inr (?stats, ?self1)"
    using assms(1-3) by (simp add: log_training_def Let_def)
  have "?stats ''min_return'' = ?base ''min_return''"
    by (rule fold_losses_other[OF assms(4)])
  then have a: "?stats ''min_return'' = Some (Num 0)"
    by (simp only: training_stats_returns py_min_def list.case)
  have "?stats ''max_return'' = ?base ''max_return''"
    by (rule fold_losses_other[OF assms(5)])
  then have b: "?stats ''max_return'' = Some (Num 0)"
    by (simp only: training_stats_returns py_max_def list.case)
  have "?stats ''mean_return'' = ?base ''mean_return''"
    by (rule fold_losses_other[OF assms(6)])
  then have c: "?stats ''mean_return'' = Some NaN"
    by (simp only: training_stats_returns np_mean_def if_True simp_thms)
  show ?thesis using run a b c by blast
qed

theorem no_episode_statistics_witness:
  "ep_rets no_episode_segment = [] \<and> ep_lens no_episode_segment = []
   \<and> (1::real) \<noteq> 0
   \<and> ''min_return'' \<notin> fst ` set (zip (loss_names fresh_algorithm) [1::real])
   \<and> ''max_return'' \<notin> fst ` set (zip (loss_names fresh_algorithm) [1::real])
   \<and> ''mean_return'' \<notin> fst ` set (zip (loss_names fresh_algorithm) [1::real])
   \<and> (\<exists>stats self'.
        log_training (\<lambda>ypred y. NaN) fresh_algorithm 0 1 1 no_episode_segment [1] [] []
          = Inr (stats, self')
        \<and> stats ''min_return'' = Some (Num 0)
        \<and> stats ''max_return'' = Some (Num 0)
        \<and> stats ''mean_return'' = Some NaN)"
proof -
  have h1: "ep_rets no_episode_segment = []" and h2: "ep_lens no_episode_segment = []"
    by (simp_all add: no_episode_segment_def)
  have h3: "(1::real) \<noteq> 0" by simp
  have h4: "''min_return'' \<notin> fst ` set (zip (loss_names fresh_algorithm) [1::real])"
    and h5: "''max_return'' \<notin> fst ` set (zip (loss_names fresh_algorithm) [1::real])"
    and h6: "''mean_return'' \<notin> fst ` set (zip (loss_names fresh_algorithm) [1::real])"
    by (simp_all add: fresh_algorithm_def)
  from no_episode_statistics[OF h1 h2 h3 h4 h5 h6, of "\<lambda>ypred y. NaN" 1 "[]" "[]"]
  have "\<exists>stats self'.
        log_training (\<lambda>ypred y. NaN) fresh_algorithm 0 1 1 no_episode_segment [1] [] []
          = Inr (stats, self')
        \<and> stats ''min_return'' = Some (Num 0)
        \<and> stats ''max_return'' = Some (Num 0)
        \<and> stats ''mean_return'' = Some NaN" .
  with h1 h2 h3 h4 h5 h6 show ?thesis by (intro conjI)
qed

section \<open>Properties of the SAC policy\<close>

lemma upt_0_2: "[0..<2] = [0, Suc 0]"
  by (simp add: upt_rec)

lemma huber_terms:
  "(min \<bar>e\<bar> 1)\<^sup>2 / 2 + (\<bar>e\<bar> - min \<bar>e\<bar> 1) = huber e"
  by (cases "\<bar>e\<bar> \<le> 1") (simp_all add: huber_def min_def)

lemma val_huber_loss:
  "val (huber_loss labels predictions)
     = regression_loss True (val labels) (val predictions)"
  by (simp add: huber_loss_def reduce_mean_def t_map2_def regression_loss_def mean_over_def
      Let_def huber_terms)

lemma val_mean_squared_error:
  "val (mean_squared_error labels predictions)
     = regression_loss False (val labels) (val predictions)"
  by (simp add: mean_squared_error_def reduce_mean_def t_map2_def regression_loss_def
      mean_over_def)

lemma critic_tf_val:
  "val (critic_tf (create_networks self fd noise0 noise1) ! 0) = critic_on_batch self fd 0"
  "val (critic_tf (create_networks self fd noise0 noise1) ! Suc 0) = critic_on_batch self fd (Suc 0)"
  by (simp_all add: create_networks_def Let_def upt_0_2 make_critic_def placeholder_def
      critic_on_batch_def split: prod.splits)

lemma map2_same: "map2 f xs (map g xs) = map (\<lambda>x. f x (g x)) xs"
  by (induction xs) simp_all

lemma target_q_val:
  "val (target_q (setup_critic_optimizer self fd nets act)) =
     map2 (\<lambda>r y. r + y) (rew_ph fd)
       (map2 (\<lambda>d q. (1 - d) * sac_gamma self * q) (terminals1 fd)
          (map2 (\<lambda>q lp. q - val (alpha act) * lp)
             (map2 min (val (critic_target nets ! 0)) (val (critic_target nets ! 1)))
             (val (next_log_pi nets))))"
  by (simp add: setup_critic_optimizer_def Let_def stop_gradient_def t_map2_def t_map_def
      t_scale_def placeholder_def zip_map1 zip_map2 split_def)

lemma target_q_wrt: "wrt (target_q (setup_critic_optimizer self fd nets act)) = {}"
  by (simp add: setup_critic_optimizer_def Let_def stop_gradient_def)

lemma critic_loss_val:
  "val (critic_loss (setup_critic_optimizer self fd nets act)) =
     regression_loss (use_huber self) (val (critic_tf nets ! 0))
         (val (target_q (setup_critic_optimizer self fd nets act)))
     + regression_loss (use_huber self) (val (critic_tf nets ! 1))
         (val (target_q (setup_critic_optimizer self fd nets act)))"
  by (simp add: setup_critic_optimizer_def Let_def val_huber_loss val_mean_squared_error)

lemma next_state_vals:
  "val (critic_target (create_networks self fd noise0 noise1) ! 0) =
     map (\<lambda>ob. critic_net self (TargetQf 0) (ob @ fst (make_actor_row self noise1 ob))) (obs1_ph fd)"
  "val (critic_target (create_networks self fd noise0 noise1) ! Suc 0) =
     map (\<lambda>ob. critic_net self (TargetQf 1) (ob @ fst (make_actor_row self noise1 ob))) (obs1_ph fd)"
  "val (next_log_pi (create_networks self fd noise0 noise1)) =
     map (\<lambda>ob. snd (make_actor_row self noise1 ob)) (obs1_ph fd)"
  by (simp_all add: create_networks_def Let_def upt_0_2 make_critic_def make_actor_def
      map2_same split: prod.splits)

lemma alpha_val: "val (alpha (setup_actor_optimizer self nets)) = exp (log_alpha self)"
  by (simp add: setup_actor_optimizer_def Let_def)

lemma example_actor_row:
  "make_actor_row example_policy [0] ob = ([0], - (ln (2 * pi) / 2) - ln (1 + 1 / 1000000))"
  by (simp add: make_actor_row_def compute_log_pis_def example_policy_def Let_def
      LOG_STD_MAX_def LOG_STD_MIN_def)

text \<open>
  Claim C4. For every batch whose reward and terminal columns have the length of the
  next observations, row \<open>i\<close> of the critic target is
  \<open>reward + (1 - terminal) * gamma * (min(target_Q1', target_Q2') - alpha * log_pi')\<close>,
  where the primed values are the two critics of scope \<open>target\<close> at the next
  observation and the action the actor samples there, and the log-probability of that
  action; the target depends on no variable scope (\<open>tf.stop_gradient\<close>); and the critic
  loss is the sum over both critics of the Huber loss (with \<open>use_huber\<close>) or the
  mean squared error between the critic's prediction on the fed batch and the target.
\<close>

theorem critic_target_and_loss:
  assumes "length (rew_ph fd) = length (obs1_ph fd)"
    and "length (terminals1 fd) = length (obs1_ph fd)"
  shows
    "let nets = create_networks self fd noise0 noise1;
         act = setup_actor_optimizer self nets;
         crit = setup_critic_optimizer self fd nets act
     in length (val (target_q crit)) = length (obs1_ph fd)
        \<and> (\<forall>i<length (obs1_ph fd).
              val (target_q crit) ! i =
                rew_ph fd ! i
                + (1 - terminals1 fd ! i) * sac_gamma self
                    * (min (critic_net self (TargetQf 0)
                              (obs1_ph fd ! i @ fst (make_actor_row self noise1 (obs1_ph fd ! i))))
                           (critic_net self (TargetQf 1)
                              (obs1_ph fd ! i @ fst (make_actor_row self noise1 (obs1_ph fd ! i))))
                       - exp (log_alpha self) * snd (make_actor_row self noise1 (obs1_ph fd ! i))))
        \<and> wrt (target_q crit) = {}
        \<and> val (critic_loss crit) =
             regression_loss (use_huber self) (critic_on_batch self fd 0) (val (target_q crit))
             + regression_loss (use_huber self) (critic_on_batch self fd 1) (val (target_q crit))"
proof -
  let ?nets = "create_networks self fd noise0 noise1"
  let ?act = "setup_actor_optimizer self ?nets"
  let ?crit = "setup_critic_optimizer self fd ?nets ?act"
  have len: "length (val (target_q ?crit)) = length (obs1_ph fd)"
    using assms by (simp add: target_q_val next_state_vals)
  have vals: "\<forall>i<length (obs1_ph fd).
              val (target_q ?crit) ! i =
                rew_ph fd ! i
                + (1 - terminals1 fd ! i) * sac_gamma self
                    * (min (critic_net self (TargetQf 0)
                              (obs1_ph fd ! i @ fst (make_actor_row self noise1 (obs1_ph fd ! i))))
                           (critic_net self (TargetQf 1)
                              (obs1_ph fd ! i @ fst (make_actor_row self noise1 (obs1_ph fd ! i))))
                       - exp (log_alpha self) * snd (make_actor_row self noise1 (obs1_ph fd ! i)))"
    using assms by (simp add: target_q_val next_state_vals alpha_val)
  have loss: "val (critic_loss ?crit) =
             regression_loss (use_huber self) (critic_on_batch self fd 0) (val (target_q ?crit))
             + regression_loss (use_huber self) (critic_on_batch self fd 1) (val (target_q ?crit))"
    by (simp only: critic_loss_val critic_tf_val One_nat_def)
  show ?thesis
    unfolding Let_def using len vals target_q_wrt loss by blast
qed

theorem critic_target_and_loss_witness:
  "length (rew_ph example_feed) = length (obs1_ph example_feed)
   \<and> length (terminals1 example_feed) = length (obs1_ph example_feed)
   \<and> (let nets = create_networks example_policy example_feed [0] [0];
           act = setup_actor_optimizer example_policy nets;
           crit = setup_critic_optimizer example_policy example_feed nets act
       in length (val (target_q crit)) = 1
          \<and> val (target_q crit) ! 0 =
               1 + (1 - 0) * (1 / 2)
                     * (min 0 0 - exp 0 * (- (ln (2 * pi) / 2) - ln (1 + 1 / 1000000)))
          \<and> wrt (target_q crit) = {}
          \<and> val (critic_loss crit) =
               regression_loss False [5] (val (target_q crit))
               + regression_loss False [5] (val (target_q crit)))"
proof -
  have h1: "length (rew_ph example_feed) = length (obs1_ph example_feed)"
    and h2: "length (terminals1 example_feed) = length (obs1_ph example_feed)"
    by (simp_all add: example_feed_def)
  have q: "critic_on_batch example_policy example_feed 0 = [5]"
    "critic_on_batch example_policy example_feed (Suc 0) = [5]"
    by (simp_all add: critic_on_batch_def example_policy_def example_feed_def)
  have f: "obs1_ph example_feed = [[0]]" "rew_ph example_feed = [1]"
    "terminals1 example_feed = [0]"
    by (simp_all add: example_feed_def)
  have p: "sac_gamma example_policy = 1 / 2" "log_alpha example_policy = 0"
    "use_huber example_policy = False"
    "critic_net example_policy = (\<lambda>sc row. sum_list row)"
    by (simp_all add: example_policy_def)
  note th = critic_target_and_loss[OF h1 h2, of example_policy "[0]" "[0]"]
  show ?thesis
    using th h1 h2 by (simp add: Let_def q f p example_actor_row)
qed

text \<open>
  Claim C7. When \<open>can_sample()\<close> is false, \<open>update()\<close> returns \<open>(0, 0)\<close> and
  the policy object is unchanged: no session run, so no gradient step and no change of
  the target networks, the temperature or the buffer. Otherwise it is
  \<open>update_from_batch\<close> on the sampled batch. So whenever \<open>update()\<close> changes
  the object, the buffer could sample.
\<close>

theorem update_without_batch_is_no_op:
  "(\<not> can_sample (replay_buffer self) \<longrightarrow>
      update can_sample sample run_step_ops self = ((0, 0), self))
   \<and> (can_sample (replay_buffer self) \<longrightarrow>
        update can_sample sample run_step_ops self =
          (case sample (replay_buffer self) of
             ((obs0, actions_b, rewards_b, obs1, extra, done1), buffer') \<Rightarrow>
               update_from_batch run_step_ops (self\<lparr>replay_buffer := buffer'\<rparr>)
                 obs0 actions_b rewards_b obs1 done1))
   \<and> (snd (update can_sample sample run_step_ops self) \<noteq> self \<longrightarrow>
        can_sample (replay_buffer self))"
  by (simp add: update_def)

theorem update_without_batch_is_no_op_witness:
  "\<not> buffer_can_sample (replay_buffer \<lparr>replay_buffer = \<lparr>stored_count = 1, batch_size = 2\<rparr>,
                                           variables = 0::nat\<rparr>)
   \<and> update buffer_can_sample empty_sample counting_run
        \<lparr>replay_buffer = \<lparr>stored_count = 1, batch_size = 2\<rparr>, variables = 0\<rparr>
       = ((0, 0), \<lparr>replay_buffer = \<lparr>stored_count = 1, batch_size = 2\<rparr>, variables = 0\<rparr>)
   \<and> buffer_can_sample (replay_buffer \<lparr>replay_buffer = \<lparr>stored_count = 2, batch_size = 2\<rparr>,
                                           variables = 0::nat\<rparr>)
   \<and> update buffer_can_sample empty_sample counting_run
        \<lparr>replay_buffer = \<lparr>stored_count = 2, batch_size = 2\<rparr>, variables = 0\<rparr>
       = ((1, 1), \<lparr>replay_buffer = \<lparr>stored_count = 2, batch_size = 2\<rparr>, variables = 1\<rparr>)"
proof -
  let ?short = "\<lparr>replay_buffer = \<lparr>stored_count = 1, batch_size = 2\<rparr>, variables = 0::nat\<rparr>"
  let ?full = "\<lparr>replay_buffer = \<lparr>stored_count = 2, batch_size = 2\<rparr>, variables = 0::nat\<rparr>"
  have no: "\<not> buffer_can_sample (replay_buffer ?short)"
    and yes: "buffer_can_sample (replay_buffer ?full)"
    by (simp_all add: buffer_can_sample_def)
  from update_without_batch_is_no_op[of buffer_can_sample ?short empty_sample counting_run] no
  have a: "update buffer_can_sample empty_sample counting_run ?short = ((0, 0), ?short)"
    by blast
  from update_without_batch_is_no_op[of buffer_can_sample ?full empty_sample counting_run] yes
  have "update buffer_can_sample empty_sample counting_run ?full =
          (case empty_sample (replay_buffer ?full) of
             ((obs0, actions_b, rewards_b, obs1, extra, done1), buffer') \<Rightarrow>
               update_from_batch counting_run (?full\<lparr>replay_buffer := buffer'\<rparr>)
                 obs0 actions_b rewards_b obs1 done1)"
    by blast
  then have b: "update buffer_can_sample empty_sample counting_run ?full
       = ((1, 1), \<lparr>replay_buffer = \<lparr>stored_count = 2, batch_size = 2\<rparr>, variables = 1\<rparr>)"
    by (simp add: empty_sample_def update_from_batch_def counting_run_def)
  show ?thesis using no yes a b by blast
qed

text \<open>
  What \<open>_setup_actor_optimizer\<close> builds: the minimum is taken over
  \<open>critic_tf\<close>, the critics at the fed actions \<open>action_ph\<close>.
\<close>

lemma actor_loss_val:
  "val (actor_loss (setup_actor_optimizer self (create_networks self fd noise0 noise1))) =
     mean_over
       (map2 (\<lambda>x q. x - q)
          (map (\<lambda>ob. exp (log_alpha self) * snd (make_actor_row self noise0 ob)) (obs_ph fd))
          (map2 min (critic_on_batch self fd 0) (critic_on_batch self fd 1)))"
proof -
  have lp: "val (log_pi (create_networks self fd noise0 noise1)) =
      map (\<lambda>ob. snd (make_actor_row self noise0 ob)) (obs_ph fd)"
    by (simp add: create_networks_def Let_def make_actor_def split: prod.splits)
  show ?thesis
    by (simp add: setup_actor_optimizer_def Let_def reduce_mean_def t_map2_def t_scale_def
        mean_over_def critic_tf_val lp o_def)
qed

text \<open>
  Claim C1 does not hold of the code. On a batch whose stored action is 5 while the
  actor samples 0, the critics in the actor loss are read at 5: the loss is 5 below the
  value of \<open>mean(alpha * log_pi - min(Q1_pi, Q2_pi))\<close>, and the critic term does not
  depend on the actor's variables. \<open>critic_with_actor_tf\<close>, the critics at the
  actor's own action, is built and not used in the loss.
\<close>

theorem actor_loss_reads_batch_actions:
  "let nets = create_networks example_policy example_feed [0] [0];
       act = setup_actor_optimizer example_policy nets
   in val (actor_loss act) = actor_loss_claimed nets act - 5
      \<and> val (actor_tf nets) = [[0]]
      \<and> action_ph example_feed = [[5]]
      \<and> val (critic_tf nets ! 0) = [5]
      \<and> val (critic_tf nets ! 1) = [5]
      \<and> val (critic_with_actor_tf nets ! 0) = [0]
      \<and> val (critic_with_actor_tf nets ! 1) = [0]
      \<and> Pi \<notin> wrt (critic_tf nets ! 0) \<union> wrt (critic_tf nets ! 1)"
  by (simp add: Let_def create_networks_def setup_actor_optimizer_def actor_loss_claimed_def
      make_actor_def make_critic_def placeholder_def example_actor_row upt_0_2
      reduce_mean_def t_map2_def t_scale_def mean_over_def example_feed_def
      example_policy_def[THEN arg_cong, of critic_net]
      split: prod.splits)

lemma far_mean_actor_row:
  "make_actor_row far_mean_policy [0] ob =
     ([tanh 5],
      - 0.5 * (((tanh 5 - 5) / (exp 0 + 1 / 1000000))\<^sup>2 + 2 * 0 + ln (2 * pi))
        - ln (1 - (tanh 5)\<^sup>2 + 1 / 1000000))"
  by (simp add: make_actor_row_def compute_log_pis_def far_mean_policy_def Let_def
      LOG_STD_MAX_def LOG_STD_MIN_def)

lemma far_from_mode: "14 < ((tanh 5 - 5) / (1 + 1 / 1000000 :: real))\<^sup>2"
proof -
  have t: "tanh (5::real) < 1" by (rule tanh_real_lt_1)
  have "(39 / 10 :: real) < (5 - tanh 5) / (1 + 1 / 1000000)"
    using t by (simp add: field_simps)
  then have "(39 / 10 :: real)\<^sup>2 < ((5 - tanh 5) / (1 + 1 / 1000000))\<^sup>2"
    by (intro power_strict_mono) simp_all
  moreover have "((5 - tanh 5) / (1 + 1 / 1000000 :: real))\<^sup>2
      = ((tanh 5 - 5) / (1 + 1 / 1000000))\<^sup>2"
    by (simp add: power2_eq_square field_simps)
  ultimately show ?thesis by (simp add: power2_eq_square)
qed

text \<open>
  What \<open>make_actor\<close> and \<open>_compute_log_pis\<close> compute for one row, when the
  lists have \<open>A\<close> entries and no dimension of the action space is degenerate. With
  \<open>u\<close> the value before the \<open>tanh\<close>, the normalized action is \<open>tanh u\<close>; the
  correction term is \<open>log(1 - tanh(u)^2 + eps)\<close> per dimension, and the Gaussian term
  is taken at \<open>tanh u\<close>.
\<close>

lemma make_actor_row_general:
  fixes self :: policy and noise ob :: "real list" and A :: nat
  defines "mu \<equiv> take A (actor_net self ob)"
    and "ls \<equiv> map (\<lambda>x. max (min x LOG_STD_MAX) LOG_STD_MIN) (drop A (actor_net self ob))"
  defines "u \<equiv> \<lambda>j. mu ! j + exp (ls ! j) * noise ! j"
  assumes out: "length (actor_net self ob) = 2 * A"
    and noise: "length noise = A"
    and lo: "length (ac_low self) = A" and hi: "length (ac_high self) = A"
    and box: "\<forall>j<A. ac_low self ! j \<noteq> ac_high self ! j"
  shows "fst (make_actor_row self noise ob) =
           map (\<lambda>j. (ac_high self ! j - ac_low self ! j) / 2 * tanh (u j)
                       + (ac_high self ! j + ac_low self ! j) / 2) [0..<A]"
    and "snd (make_actor_row self noise ob) =
           (\<Sum>j<A. - 0.5 * (((tanh (u j) - mu ! j) / (exp (ls ! j) + 1 / 1000000))\<^sup>2
                              + 2 * ls ! j + ln (2 * pi)))
           - (\<Sum>j<A. ln (1 - (tanh (u j))\<^sup>2 + 1 / 1000000))"
proof -
  define means where "means = map2 (\<lambda>h l. (h + l) / 2) (ac_high self) (ac_low self)"
  define mags where "mags = map2 (\<lambda>h l. (h - l) / 2) (ac_high self) (ac_low self)"
  define pre where "pre = map2 (\<lambda>m x. m + x) mu (map2 (\<lambda>s z. s * z) (map exp ls) noise)"
  define pol where "pol = map2 (\<lambda>x m. x + m) (map2 (\<lambda>g x. g * x) mags (map tanh pre)) means"
  define nrm where "nrm = map2 (\<lambda>a m. a / m) (map2 (\<lambda>a m. a - m) pol means) mags"
  have half: "length (actor_net self ob) div 2 = A" using out by simp
  have lmu: "length mu = A" and lls: "length ls = A"
    using out by (simp_all add: mu_def ls_def)
  have lmeans: "length means = A" and lmags: "length mags = A"
    using lo hi by (simp_all add: means_def mags_def)
  have lpre: "length pre = A" using lmu lls noise by (simp add: pre_def)
  have lpol: "length pol = A" using lpre lmeans lmags by (simp add: pol_def)
  have lnrm: "length nrm = A" using lpol lmeans lmags by (simp add: nrm_def)
  have means_nth: "means ! j = (ac_high self ! j + ac_low self ! j) / 2" if "j < A" for j
    using that lo hi by (simp add: means_def)
  have mags_nth: "mags ! j = (ac_high self ! j - ac_low self ! j) / 2" if "j < A" for j
    using that lo hi by (simp add: mags_def)
  have pre_nth: "pre ! j = u j" if "j < A" for j
    using that lmu lls noise by (simp add: pre_def u_def)
  have pol_nth: "pol ! j = mags ! j * tanh (u j) + means ! j" if "j < A" for j
    using that lpre lmeans lmags by (simp add: pol_def pre_nth)
  have nrm_nth: "nrm ! j = tanh (u j)" if "j < A" for j
  proof -
    have "ac_low self ! j \<noteq> ac_high self ! j" using that box by blast
    then have "mags ! j \<noteq> 0" using that by (simp add: mags_nth)
    moreover have "nrm ! j = (pol ! j - means ! j) / mags ! j"
      using that lpol lmeans lmags by (simp add: nrm_def)
    ultimately show ?thesis using that by (simp add: pol_nth)
  qed
  have pol: "pol = map (\<lambda>j. (ac_high self ! j - ac_low self ! j) / 2 * tanh (u j)
                       + (ac_high self ! j + ac_low self ! j) / 2) [0..<A]"
    using lpol by (intro nth_equalityI) (simp_all add: pol_nth mags_nth means_nth)
  have nrm: "nrm = map (\<lambda>j. tanh (u j)) [0..<A]"
    using lnrm by (intro nth_equalityI) (simp_all add: nrm_nth)
  have row: "make_actor_row self noise ob = (pol, compute_log_pis self pol mu ls (1 / 1000000))"
    by (simp add: make_actor_row_def Let_def half mu_def ls_def pol_def pre_def means_def
        mags_def)
  show "fst (make_actor_row self noise ob) =
           map (\<lambda>j. (ac_high self ! j - ac_low self ! j) / 2 * tanh (u j)
                       + (ac_high self ! j + ac_low self ! j) / 2) [0..<A]"
    by (simp only: row fst_conv pol[symmetric])
  have z: "zip (map (\<lambda>j. tanh (u j)) [0..<A]) (zip mu ls)
             = map (\<lambda>j. (tanh (u j), mu ! j, ls ! j)) [0..<A]"
    using lmu lls by (intro nth_equalityI) simp_all
  have "compute_log_pis self pol mu ls (1 / 1000000) =
      sum_list (map (\<lambda>(a, m, logstd). - 0.5 * (((a - m) / (exp logstd + 1 / 1000000))\<^sup>2
                              + 2 * logstd + ln (2 * pi))) (zip nrm (zip mu ls)))
      - sum_list (map (\<lambda>a. ln (1 - a\<^sup>2 + 1 / 1000000)) nrm)"
    by (simp add: compute_log_pis_def Let_def nrm_def means_def mags_def)
  also have "\<dots> =
      sum_list (map (\<lambda>j. - 0.5 * (((tanh (u j) - mu ! j) / (exp (ls ! j) + 1 / 1000000))\<^sup>2
                              + 2 * ls ! j + ln (2 * pi))) [0..<A])
      - sum_list (map (\<lambda>j. ln (1 - (tanh (u j))\<^sup>2 + 1 / 1000000)) [0..<A])"
    unfolding nrm z by (simp add: o_def)
  finally show "snd (make_actor_row self noise ob) =
           (\<Sum>j<A. - 0.5 * (((tanh (u j) - mu ! j) / (exp (ls ! j) + 1 / 1000000))\<^sup>2
                              + 2 * ls ! j + ln (2 * pi)))
           - (\<Sum>j<A. ln (1 - (tanh (u j))\<^sup>2 + 1 / 1000000))"
    by (simp add: row interv_sum_list_conv_sum_set_nat atLeast0LessThan)
qed

text \<open>
  Claim C3 does not hold of the code. \<open>_compute_log_pis\<close> evaluates the Gaussian
  term at the normalized squashed action, \<open>tanh\<close> of the pre-squash value, and not at
  the pre-squash value. With mean 5, log-std 0 and noise 0 the pre-squash value is the
  mean itself; the code's log-probability is more than 7 below the Gaussian log-density
  minus the correction of the \<open>tanh\<close>.
\<close>

theorem log_pi_density_at_squashed_action:
  "fst (make_actor_row far_mean_policy [0] [0]) = [tanh 5]
   \<and> snd (make_actor_row far_mean_policy [0] [0]) =
        - 0.5 * (((tanh 5 - 5) / (exp 0 + 1 / 1000000))\<^sup>2 + 2 * 0 + ln (2 * pi))
          - ln (1 - (tanh 5)\<^sup>2 + 1 / 1000000)
   \<and> squashed_gaussian_log_prob [5] [5] [0] [tanh 5] (1 / 1000000) =
        - 0.5 * (((5 - 5) / exp 0)\<^sup>2 + 2 * 0 + ln (2 * pi))
          - ln (1 - (tanh 5)\<^sup>2 + 1 / 1000000)
   \<and> snd (make_actor_row far_mean_policy [0] [0])
        < squashed_gaussian_log_prob [5] [5] [0] [tanh 5] (1 / 1000000) - 7"
proof -
  have spec: "squashed_gaussian_log_prob [5] [5] [0] [tanh 5] (1 / 1000000) =
        - 0.5 * (((5 - 5) / exp 0)\<^sup>2 + 2 * 0 + ln (2 * pi))
          - ln (1 - (tanh 5)\<^sup>2 + 1 / 1000000)"
    by (simp add: squashed_gaussian_log_prob_def)
  define x :: real where "x = ((tanh 5 - 5) / (exp 0 + 1 / 1000000))\<^sup>2"
  define c :: real where "c = ln (2 * pi)"
  define j :: real where "j = ln (1 - (tanh 5)\<^sup>2 + 1 / 1000000)"
  have "14 < x" using far_from_mode by (simp add: x_def)
  then have "- 0.5 * (x + 2 * 0 + c) - j < (- 0.5 * (((5 - 5) / exp 0)\<^sup>2 + 2 * 0 + c) - j) - 7"
    by (simp add: field_simps)
  then have "- 0.5 * (((tanh 5 - 5) / (exp 0 + 1 / 1000000))\<^sup>2 + 2 * 0 + ln (2 * pi))
          - ln (1 - (tanh 5)\<^sup>2 + 1 / 1000000)
        < (- 0.5 * (((5 - 5) / exp 0)\<^sup>2 + 2 * 0 + ln (2 * pi))
          - ln (1 - (tanh 5)\<^sup>2 + 1 / 1000000)) - (7::real)"
    unfolding x_def c_def j_def .
  then show ?thesis
    by (simp only: far_mean_actor_row spec fst_conv snd_conv simp_thms)
qed

end
